theory Spec2Isabelle
  imports Complex_Main "HOL-Library.Sublist"
begin

section \<open>Python values\<close>

text \<open>
  A Python \<^verbatim>\<open>str\<close> is a sequence of Unicode code points, so a string is a list of
  code points (natural numbers), not of bytes: the quote characters of
  \<^verbatim>\<open>MergedEntity.QUOTES\<close> lie outside ASCII and each is one character.
  \<open>str\<close> writes an ASCII literal as such a string.
\<close>

type_synonym pystr = "nat list"

definition str :: "string \<Rightarrow> pystr" where
  "str s = map of_char s"

text \<open>The exceptions the evaluation script can raise; \<open>SystemExit\<close> is \<^verbatim>\<open>exit(1)\<close>.\<close>

datatype exn =
  KeyError | TypeError | AttributeError | IndexError | ValueError
  | ZeroDivisionError | SystemExit

text \<open>
  \<^verbatim>\<open>str.isspace\<close> on one code point: the whitespace that \<^verbatim>\<open>str.split()\<close>,
  \<^verbatim>\<open>str.strip()\<close> and the regular expression class \<^verbatim>\<open>\s\<close> recognise.
\<close>

definition isspace :: "nat \<Rightarrow> bool" where
  "isspace c =
     ((9 \<le> c \<and> c \<le> 13) \<or> (28 \<le> c \<and> c \<le> 32) \<or> c = 133 \<or> c = 160 \<or> c = 5760
      \<or> (8192 \<le> c \<and> c \<le> 8202) \<or> c = 8232 \<or> c = 8233 \<or> c = 8239 \<or> c = 8287
      \<or> c = 12288)"

text \<open>
  \<^verbatim>\<open>s.split()\<close> with no argument: the maximal runs of non-whitespace characters, in
  order. \<open>tok\<close> is the token being read.
\<close>

fun split_from :: "pystr \<Rightarrow> pystr \<Rightarrow> pystr list" where
  "split_from tok [] = (if tok = [] then [] else [tok])"
| "split_from tok (c # cs) =
     (if isspace c then (if tok = [] then split_from [] cs else tok # split_from [] cs)
      else split_from (tok @ [c]) cs)"

definition py_split :: "pystr \<Rightarrow> pystr list" where
  "py_split s = split_from [] s"

text \<open>\<^verbatim>\<open>s.strip()\<close>: whitespace removed at both ends.\<close>

definition py_strip :: "pystr \<Rightarrow> pystr" where
  "py_strip s = rev (dropWhile isspace (rev (dropWhile isspace s)))"

text \<open>
  \<^verbatim>\<open>str.lower\<close> follows the Unicode case mapping, which is data of the Python runtime
  and not of this repository. Every function that lowercases takes the mapping as its
  first argument \<open>lower\<close>, and the theorems hold for every such mapping. On ASCII text
  \<^verbatim>\<open>str.lower\<close> is \<open>ascii_lower\<close>, which the concrete evaluations below use.
\<close>

definition ascii_lower :: "pystr \<Rightarrow> pystr" where
  "ascii_lower s = map (\<lambda>c. if 65 \<le> c \<and> c \<le> 90 then c + 32 else c) s"

text \<open>
  \<^verbatim>\<open>max\<close> over a generator of scores: the generator is consumed from the left, an
  exception raised by an element ends the call, and an empty generator is a
  \<^verbatim>\<open>ValueError\<close>. Scores are Python floats obtained by one division of small integers
  or as products of 0.0 and 1.0; they are kept as the exact rational.
\<close>

fun py_max_from :: "rat \<Rightarrow> (exn + rat) list \<Rightarrow> exn + rat" where
  "py_max_from best [] = Inr best"
| "py_max_from best (Inl e # xs) = Inl e"
| "py_max_from best (Inr x # xs) = py_max_from (if x > best then x else best) xs"

fun py_max :: "(exn + rat) list \<Rightarrow> exn + rat" where
  "py_max [] = Inl ValueError"
| "py_max (Inl e # xs) = Inl e"
| "py_max (Inr x # xs) = py_max_from x xs"


section \<open>Identity model\<close>

text \<open>
  \<^verbatim>\<open>Entity\<close>: the fields \<open>id'\<close> and \<open>type'\<close> are the attributes \<^verbatim>\<open>id_\<close> and
  \<^verbatim>\<open>type_\<close>; \<^verbatim>\<open>id_\<close> is \<^verbatim>\<open>args.get('id')\<close>, which is \<^verbatim>\<open>None\<close> when the record
  has no id. The attribute \<^verbatim>\<open>key\<close> is computed once in the constructor from the three
  fields and never assigned again, so it is the function \<open>key\<close>.
\<close>

type_synonym ident = "pystr option"

type_synonym entity_key = "pystr \<times> pystr \<times> pystr"

record Entity =
  id' :: ident
  type' :: pystr
  name :: pystr
  normalization_type :: pystr
  normalization_value :: pystr

definition key :: "Entity \<Rightarrow> entity_key" where
  "key ent = (type' ent, normalization_type ent, normalization_value ent)"

text \<open>
  \<^verbatim>\<open>MergedEntity\<close>: \<^verbatim>\<open>ids\<close> and \<^verbatim>\<open>names\<close> are Python sets, kept as the list of their
  distinct members; membership, \<^verbatim>\<open>max\<close> and the search of \<^verbatim>\<open>match_name\<close> do not depend
  on the order of iteration.
\<close>

record MergedEntity =
  me_type :: pystr
  ids :: "ident list"
  names :: "pystr list"
  me_normalization_type :: pystr
  me_normalization_value :: pystr
  me_key :: entity_key

definition MergedEntity_init :: "Entity \<Rightarrow> MergedEntity" where
  "MergedEntity_init ent =
     \<lparr> me_type = type' ent, ids = [id' ent], names = [name ent],
       me_normalization_type = normalization_type ent,
       me_normalization_value = normalization_value ent,
       me_key = key ent \<rparr>"

definition add :: "MergedEntity \<Rightarrow> Entity \<Rightarrow> MergedEntity" where
  "add self ent =
     self\<lparr> ids := List.insert (id' ent) (ids self),
           names := List.insert (name ent) (names self) \<rparr>"

definition QUOTES :: "nat set" where
  "QUOTES = {34, 39, 8216, 8217, 8220, 8221, 96, 180}"

text \<open>
  \<^verbatim>\<open>match_name\<close>: \<^verbatim>\<open>pred_name[0]\<close> and \<^verbatim>\<open>pred_name[-1]\<close> are read before anything
  else, so the empty string raises \<^verbatim>\<open>IndexError\<close>.
\<close>

definition match_name :: "(pystr \<Rightarrow> pystr) \<Rightarrow> MergedEntity \<Rightarrow> pystr \<Rightarrow> exn + bool" where
  "match_name lower self pred_name =
     (case pred_name of
        [] \<Rightarrow> Inl IndexError
      | c # _ \<Rightarrow>
          let unquoted =
                (if c \<in> QUOTES \<and> last pred_name \<in> QUOTES then butlast (tl pred_name)
                 else pred_name);
              lowered = lower unquoted
          in Inr (list_ex (\<lambda>name. lower name = lowered) (names self)))"

text \<open>
  \<^verbatim>\<open>_jaccard_seq\<close>: \<open>jaccard_step\<close> is the body of the loop over \<^verbatim>\<open>shift\<close>, from
  \<^verbatim>\<open>1 - n1\<close> to \<^verbatim>\<open>n2 - 1\<close>; both slices start inside their sequence.
\<close>

definition jaccard_step :: "'a list \<Rightarrow> 'a list \<Rightarrow> int \<Rightarrow> nat \<Rightarrow> nat" where
  "jaccard_step seq1 seq2 shift best =
     (let start1 = nat (max 0 (- shift));
          start2 = nat (max 0 shift);
          sub1 = drop start1 seq1;
          sub2 = drop start2 seq2;
          m = min (length sub1) (length sub2)
      in if m > best \<and> take m sub1 = take m sub2 then m else best)"

definition jaccard_seq :: "'a list \<Rightarrow> 'a list \<Rightarrow> exn + rat" where
  "jaccard_seq seq1 seq2 =
     (let n1 = length seq1;
          n2 = length seq2;
          best = fold (jaccard_step seq1 seq2) [1 - int n1 .. int n2 - 1] 0;
          union = int n1 + int n2 - int best
      in if union = 0 then Inl ZeroDivisionError else Inr (of_nat best / of_int union))"

definition jaccard_name :: "(pystr \<Rightarrow> pystr) \<Rightarrow> MergedEntity \<Rightarrow> pystr \<Rightarrow> exn + rat" where
  "jaccard_name lower self pred_name =
     (case pred_name of
        [] \<Rightarrow> Inl IndexError
      | c # _ \<Rightarrow>
          let unquoted =
                (if c \<in> QUOTES \<and> last pred_name \<in> QUOTES then butlast (tl pred_name)
                 else pred_name);
              pred_tokens = py_split (lower unquoted)
          in py_max (map (\<lambda>name. jaccard_seq (py_split (lower name)) pred_tokens)
                      (names self)))"

text \<open>
  \<^verbatim>\<open>Relation\<close>: in a reference dataset \<^verbatim>\<open>source\<close> and \<^verbatim>\<open>target\<close> are entity ids, in a
  predicted dataset they are surface names. \<^verbatim>\<open>Relation.key\<close> indexes the id map twice,
  the source first; a missing id is a \<^verbatim>\<open>KeyError\<close>. The key is the tuple of the raw
  type and the components of the two entity keys, kept as the type and the two keys.
\<close>

record Relation =
  rel_type :: pystr
  source :: pystr
  target :: pystr

type_synonym relation_key = "pystr \<times> entity_key \<times> entity_key"

definition Relation_key :: "(ident \<rightharpoonup> MergedEntity) \<Rightarrow> Relation \<Rightarrow> exn + relation_key" where
  "Relation_key ent_id_map self =
     (case ent_id_map (Some (source self)) of
        None \<Rightarrow> Inl KeyError
      | Some s \<Rightarrow>
          (case ent_id_map (Some (target self)) of
             None \<Rightarrow> Inl KeyError
           | Some t \<Rightarrow> Inr (rel_type self, me_key s, me_key t)))"

text \<open>
  \<^verbatim>\<open>MergedRelation\<close> holds references to merged entities. No entity is mutated once
  the relations are built, so the record holds their values.
\<close>

record MergedRelation =
  mr_type :: pystr
  mr_source :: MergedEntity
  mr_target :: MergedEntity

definition MergedRelation_init ::
  "(ident \<rightharpoonup> MergedEntity) \<Rightarrow> Relation \<Rightarrow> exn + MergedRelation" where
  "MergedRelation_init ent_id_map rel =
     (case ent_id_map (Some (source rel)) of
        None \<Rightarrow> Inl KeyError
      | Some s \<Rightarrow>
          (case ent_id_map (Some (target rel)) of
             None \<Rightarrow> Inl KeyError
           | Some t \<Rightarrow> Inr \<lparr> mr_type = rel_type rel, mr_source = s, mr_target = t \<rparr>))"

definition TYPEMAP :: "(pystr \<times> pystr) list" where
  "TYPEMAP =
     [(str ''Cause'', str ''Causes''),
      (str ''Affect'', str ''Affects''),
      (str ''Have been found on'', str ''Has been found on''),
      (str ''Transmit'', str ''Transmits'')]"

text \<open>
  \<^verbatim>\<open>_normalize_type\<close>: the synonym table first, then every run matching \<^verbatim>\<open>[\s_]+\<close> is
  replaced by the empty string (every whitespace character and every underscore goes),
  then lowercasing.
\<close>

definition normalize_type :: "(pystr \<Rightarrow> pystr) \<Rightarrow> pystr \<Rightarrow> pystr" where
  "normalize_type lower t =
     lower (filter (\<lambda>c. \<not> (isspace c \<or> c = 95))
              (case map_of TYPEMAP t of Some canonical \<Rightarrow> canonical | None \<Rightarrow> t))"

definition match_type :: "(pystr \<Rightarrow> pystr) \<Rightarrow> MergedRelation \<Rightarrow> pystr \<Rightarrow> bool" where
  "match_type lower self pred_type =
     (normalize_type lower (mr_type self) = normalize_type lower pred_type)"


section \<open>Reference canonicalizer\<close>

record Dataset =
  entities :: "Entity list"
  relations :: "Relation list"
  equivalences :: "ident list list"

record MergedRefDataset =
  ref_entities :: "MergedEntity list"
  ref_relations :: "MergedRelation list"

text \<open>
  \<^verbatim>\<open>_merge_ref_entities\<close>. A \<^verbatim>\<open>MergedEntity\<close> object is shared by \<^verbatim>\<open>ent_map\<close>,
  \<^verbatim>\<open>eqid_map\<close> and the sequence the generator yields, and \<^verbatim>\<open>add\<close> mutates it in
  place. The store \<open>clusters\<close> holds the objects in the order of their creation (the
  order in which they are yielded) and the two dictionaries hold positions in the
  store. The caller collects the generator into a list at once, so it sees every
  object after the last mutation: the result is the final store.
\<close>

record merge_state =
  clusters :: "MergedEntity list"
  ent_map :: "entity_key \<rightharpoonup> nat"
  eqid_map :: "ident \<rightharpoonup> nat"

definition register_eq ::
  "ident list list \<Rightarrow> ident \<Rightarrow> nat \<Rightarrow> (ident \<rightharpoonup> nat) \<Rightarrow> (ident \<rightharpoonup> nat)" where
  "register_eq eqs i me m =
     fold (\<lambda>eq m. if i \<in> set eq then fold (\<lambda>j m. m(j \<mapsto> me)) eq m else m) eqs m"

definition merge_step :: "ident list list \<Rightarrow> Entity \<Rightarrow> merge_state \<Rightarrow> merge_state" where
  "merge_step eqs ent st =
     (case ent_map st (key ent) of
        Some k \<Rightarrow> st\<lparr> clusters := (clusters st)[k := add (clusters st ! k) ent] \<rparr>
      | None \<Rightarrow>
          (case eqid_map st (id' ent) of
             Some k \<Rightarrow> st\<lparr> clusters := (clusters st)[k := add (clusters st ! k) ent] \<rparr>
           | None \<Rightarrow>
               let me = length (clusters st)
               in \<lparr> clusters = clusters st @ [MergedEntity_init ent],
                    ent_map = (ent_map st)(key ent \<mapsto> me),
                    eqid_map = register_eq eqs (id' ent) me (eqid_map st) \<rparr>))"

definition merge_init :: merge_state where
  "merge_init = \<lparr> clusters = [], ent_map = Map.empty, eqid_map = Map.empty \<rparr>"

definition merge_ref_entities :: "Dataset \<Rightarrow> MergedEntity list" where
  "merge_ref_entities self =
     clusters (fold (merge_step (equivalences self)) (entities self) merge_init)"

text \<open>
  \<^verbatim>\<open>_merge_ref_relations\<close>: the id index (a later cluster overwrites an earlier one
  for an id both hold), then the loop over the relations with the set of keys seen.
\<close>

definition build_ent_id_map :: "MergedEntity list \<Rightarrow> (ident \<rightharpoonup> MergedEntity)" where
  "build_ent_id_map ents = fold (\<lambda>me m. fold (\<lambda>i m. m(i \<mapsto> me)) (ids me) m) ents Map.empty"

fun merge_rels ::
  "(ident \<rightharpoonup> MergedEntity) \<Rightarrow> relation_key set \<Rightarrow> Relation list \<Rightarrow> exn + MergedRelation list"
where
  "merge_rels ent_id_map rel_map [] = Inr []"
| "merge_rels ent_id_map rel_map (rel # rels) =
     (case Relation_key ent_id_map rel of
        Inl e \<Rightarrow> Inl e
      | Inr k \<Rightarrow>
          if k \<in> rel_map then merge_rels ent_id_map rel_map rels
          else
            (case MergedRelation_init ent_id_map rel of
               Inl e \<Rightarrow> Inl e
             | Inr mr \<Rightarrow>
                 (case merge_rels ent_id_map (insert k rel_map) rels of
                    Inl e \<Rightarrow> Inl e
                  | Inr out \<Rightarrow> Inr (mr # out))))"

definition merge_ref_relations :: "Dataset \<Rightarrow> MergedEntity list \<Rightarrow> exn + MergedRelation list" where
  "merge_ref_relations self ents = merge_rels (build_ent_id_map ents) {} (relations self)"

definition merge_ref :: "Dataset \<Rightarrow> exn + MergedRefDataset" where
  "merge_ref self =
     (let ents = merge_ref_entities self
      in case merge_ref_relations self ents of
           Inl e \<Rightarrow> Inl e
         | Inr rels \<Rightarrow> Inr \<lparr> ref_entities = ents, ref_relations = rels \<rparr>)"


section \<open>Similarity functions\<close>

text \<open>
  A similarity is a Python callable and may raise, so its result is \<open>exn + rat\<close>.
  \<^verbatim>\<open>float(True)\<close> is 1.0 and \<^verbatim>\<open>float(False)\<close> is 0.0.
\<close>

definition standard_type_similarity ::
  "(pystr \<Rightarrow> pystr) \<Rightarrow> MergedRelation \<Rightarrow> pystr \<Rightarrow> exn + rat" where
  "standard_type_similarity lower ref t = Inr (if match_type lower ref t then 1 else 0)"

definition relaxed_type_similarity ::
  "(pystr \<Rightarrow> pystr) \<Rightarrow> MergedRelation \<Rightarrow> pystr \<Rightarrow> exn + rat" where
  "relaxed_type_similarity lower ref t = Inr (if match_type lower ref t then 1 else 9 / 10)"

definition standard_arg_similarity ::
  "(pystr \<Rightarrow> pystr) \<Rightarrow> MergedEntity \<Rightarrow> pystr \<Rightarrow> exn + rat" where
  "standard_arg_similarity lower ref nm =
     (case match_name lower ref nm of
        Inl e \<Rightarrow> Inl e
      | Inr b \<Rightarrow> Inr (if b then 1 else 0))"

definition relaxed_arg_similarity ::
  "(pystr \<Rightarrow> pystr) \<Rightarrow> MergedEntity \<Rightarrow> pystr \<Rightarrow> exn + rat" where
  "relaxed_arg_similarity lower ref nm = jaccard_name lower ref nm"

text \<open>
  \<^verbatim>\<open>relation_similarity\<close>: the three factors are evaluated from the left, and all three
  are evaluated whatever the value of the others. The product is kept as the exact
  rational: that is the double Python computes when the factors are the strict 0.0 and
  1.0, and it differs from it by the rounding of the multiplications when a relaxed
  factor is neither.
\<close>

definition relation_similarity ::
  "(MergedRelation \<Rightarrow> pystr \<Rightarrow> exn + rat) \<Rightarrow> (MergedEntity \<Rightarrow> pystr \<Rightarrow> exn + rat)
   \<Rightarrow> MergedRelation \<Rightarrow> Relation \<Rightarrow> exn + rat" where
  "relation_similarity type_sim arg_sim ref pred =
     (case type_sim ref (rel_type pred) of
        Inl e \<Rightarrow> Inl e
      | Inr t \<Rightarrow>
          (case arg_sim (mr_source ref) (source pred) of
             Inl e \<Rightarrow> Inl e
           | Inr a \<Rightarrow>
               (case arg_sim (mr_target ref) (target pred) of
                  Inl e \<Rightarrow> Inl e
                | Inr b \<Rightarrow> Inr (t * a * b))))"


section \<open>Redundancy filter and evaluation\<close>

text \<open>
  \<^verbatim>\<open>pred_redundant\<close>. \<^verbatim>\<open>Relation\<close> defines neither \<^verbatim>\<open>__eq__\<close> nor \<^verbatim>\<open>__hash__\<close>, so the
  set of redundant predictions is a set of objects, and an object of the list
  \<^verbatim>\<open>pred.relations\<close> is its position in the list: the generator yields positions.
  \<open>scan_pred\<close> is the inner loop for one reference relation, at position \<open>i\<close> of the
  predictions with the flag \<^verbatim>\<open>found\<close>.
\<close>

fun scan_pred :: "(Relation \<Rightarrow> exn + rat) \<Rightarrow> bool \<Rightarrow> nat \<Rightarrow> Relation list \<Rightarrow> exn + nat list" where
  "scan_pred sim found i [] = Inr []"
| "scan_pred sim found i (p # ps) =
     (case sim p of
        Inl e \<Rightarrow> Inl e
      | Inr s \<Rightarrow>
          if s = 1 then
            (if found then
               (case scan_pred sim True (Suc i) ps of
                  Inl e \<Rightarrow> Inl e
                | Inr out \<Rightarrow> Inr (i # out))
             else scan_pred sim True (Suc i) ps)
          else scan_pred sim found (Suc i) ps)"

fun pred_redundant ::
  "(pystr \<Rightarrow> pystr) \<Rightarrow> MergedRelation list \<Rightarrow> Relation list \<Rightarrow> exn + nat list" where
  "pred_redundant lower [] pred = Inr []"
| "pred_redundant lower (r # ref) pred =
     (case scan_pred
             (relation_similarity (standard_type_similarity lower)
                (standard_arg_similarity lower) r)
             False 0 pred of
        Inl e \<Rightarrow> Inl e
      | Inr out \<Rightarrow>
          (case pred_redundant lower ref pred of
             Inl e \<Rightarrow> Inl e
           | Inr rest \<Rightarrow> Inr (out @ rest)))"

text \<open>
  \<^verbatim>\<open>evaluate\<close>. The classes \<^verbatim>\<open>MunkresPairing\<close>, \<^verbatim>\<open>BaseScores\<close> and \<^verbatim>\<open>IEScores\<close> come
  from the package \<^verbatim>\<open>evaluate\<close>, which is not among the sources. \<open>pairing sim ref pred\<close>
  stands for \<^verbatim>\<open>MunkresPairing(sim).get_pairs(ref, pred)\<close> collected into a list, over
  any type \<open>'p\<close> of pairs, and \<open>scoring pairs\<close> for the construction (and logging) of
  the two score objects, of any type \<open>'s\<close>.
\<close>

definition not_redundant :: "nat list \<Rightarrow> Relation list \<Rightarrow> Relation list" where
  "not_redundant redundant pred =
     map snd (filter (\<lambda>(i, p). i \<notin> set redundant) (enumerate 0 pred))"

definition evaluate ::
  "(pystr \<Rightarrow> pystr)
   \<Rightarrow> ((MergedRelation \<Rightarrow> Relation \<Rightarrow> exn + rat) \<Rightarrow> MergedRelation list \<Rightarrow> Relation list
        \<Rightarrow> exn + 'p list)
   \<Rightarrow> ('p list \<Rightarrow> exn + 's)
   \<Rightarrow> MergedRefDataset \<Rightarrow> Dataset
   \<Rightarrow> (MergedRelation \<Rightarrow> pystr \<Rightarrow> exn + rat) \<Rightarrow> (MergedEntity \<Rightarrow> pystr \<Rightarrow> exn + rat)
   \<Rightarrow> exn + ('s \<times> 'p list)" where
  "evaluate lower pairing scoring ref pred type_sim arg_sim =
     (case pred_redundant lower (ref_relations ref) (relations pred) of
        Inl e \<Rightarrow> Inl e
      | Inr redundant \<Rightarrow>
          let pred_rels = not_redundant redundant (relations pred)
          in (case pairing (relation_similarity type_sim arg_sim) (ref_relations ref) pred_rels of
                Inl e \<Rightarrow> Inl e
              | Inr pairs \<Rightarrow>
                  (case scoring pairs of
                     Inl e \<Rightarrow> Inl e
                   | Inr scores \<Rightarrow> Inr (scores, pairs))))"


section \<open>Reading a dataset\<close>

text \<open>
  The value \<^verbatim>\<open>json.loads\<close> returns. An object is the list of its members, each key
  once (\<^verbatim>\<open>json.loads\<close> keeps the last of a repeated key).
\<close>

datatype json =
  JNull | JBool bool | JNum rat | JStr pystr | JArr "json list" | JObj "(pystr \<times> json) list"

text \<open>
  The similarity functions and the canonicalizer are modelled on strings, which is
  what the fields of a well-formed dataset hold. Python stores any JSON value in a
  field without looking at it; a document with another value where the model has a
  string is \<open>Untyped\<close>: Python does not raise while reading it, and what Python does
  with it afterwards is outside the model. \<open>Raises\<close> is an exception Python raises and
  \<open>Returns\<close> a normal return.
\<close>

datatype 'a outcome = Returns 'a | Raises exn | Untyped

fun bind :: "'a outcome \<Rightarrow> ('a \<Rightarrow> 'b outcome) \<Rightarrow> 'b outcome" where
  "bind (Returns x) f = f x"
| "bind (Raises e) f = Raises e"
| "bind Untyped f = Untyped"

fun lift :: "exn + 'a \<Rightarrow> 'a outcome" where
  "lift (Inl e) = Raises e"
| "lift (Inr x) = Returns x"

text \<open>A generator expression collected into a list: the elements from the left.\<close>

fun collect :: "('a \<Rightarrow> 'b outcome) \<Rightarrow> 'a list \<Rightarrow> 'b list outcome" where
  "collect f [] = Returns []"
| "collect f (x # xs) = bind (f x) (\<lambda>y. bind (collect f xs) (\<lambda>ys. Returns (y # ys)))"

text \<open>Python's truth value of a JSON value, and what iterating over it yields.\<close>

fun truthy :: "json \<Rightarrow> bool" where
  "truthy JNull = False"
| "truthy (JBool b) = b"
| "truthy (JNum x) = (x \<noteq> 0)"
| "truthy (JStr s) = (s \<noteq> [])"
| "truthy (JArr xs) = (xs \<noteq> [])"
| "truthy (JObj kvs) = (kvs \<noteq> [])"

fun py_iter :: "json \<Rightarrow> json list outcome" where
  "py_iter (JArr xs) = Returns xs"
| "py_iter (JStr s) = Returns (map (\<lambda>c. JStr [c]) s)"
| "py_iter (JObj kvs) = Returns (map (\<lambda>kv. JStr (fst kv)) kvs)"
| "py_iter v = Raises TypeError"

text \<open>A field the model keeps as a string, and a field it keeps as an id.\<close>

fun as_str :: "json \<Rightarrow> pystr outcome" where
  "as_str (JStr s) = Returns s"
| "as_str v = Untyped"

fun as_ident :: "json \<Rightarrow> ident outcome" where
  "as_ident JNull = Returns None"
| "as_ident (JStr s) = Returns (Some s)"
| "as_ident v = Untyped"

text \<open>
  \<^verbatim>\<open>remove_codeblock\<close>: \<^verbatim>\<open>CODEBLOCK.search\<close> tries the start positions from the left; at
  a position the opening fence must stand, and the greedy \<^verbatim>\<open>(.*)\<close> (with \<^verbatim>\<open>DOTALL\<close>)
  runs to the last closing fence after it. The fence is three characters 96.
\<close>

definition FENCE :: pystr where
  "FENCE = [96, 96, 96]"

fun last_index :: "'a list \<Rightarrow> 'a list \<Rightarrow> nat option" where
  "last_index pat [] = (if pat = [] then Some 0 else None)"
| "last_index pat (c # cs) =
     (case last_index pat cs of
        Some k \<Rightarrow> Some (Suc k)
      | None \<Rightarrow> if take (length pat) (c # cs) = pat then Some 0 else None)"

fun CODEBLOCK_search :: "pystr \<Rightarrow> pystr option" where
  "CODEBLOCK_search [] = None"
| "CODEBLOCK_search (c # cs) =
     (if take 7 (c # cs) = FENCE @ str ''json'' then
        (case last_index FENCE (drop 7 (c # cs)) of
           Some k \<Rightarrow> Some (take k (drop 7 (c # cs)))
         | None \<Rightarrow> CODEBLOCK_search cs)
      else CODEBLOCK_search cs)"

definition remove_codeblock :: "pystr \<Rightarrow> pystr" where
  "remove_codeblock content =
     (case CODEBLOCK_search content of None \<Rightarrow> content | Some group1 \<Rightarrow> group1)"

text \<open>
  \<^verbatim>\<open>remove_last_comma\<close>: every comma (44) after which, past any whitespace, a closing
  brace (125) or bracket (93) stands is removed.
\<close>

fun remove_last_comma :: "pystr \<Rightarrow> pystr" where
  "remove_last_comma [] = []"
| "remove_last_comma (c # cs) =
     (if c = 44 \<and> (case dropWhile isspace cs of [] \<Rightarrow> False | d # _ \<Rightarrow> d = 125 \<or> d = 93)
      then remove_last_comma cs
      else c # remove_last_comma cs)"

text \<open>
  \<^verbatim>\<open>squash_list\<close>: \<^verbatim>\<open>elt.get\<close> needs a dict (\<^verbatim>\<open>AttributeError\<close> otherwise) and
  \<^verbatim>\<open>extend\<close> iterates over what it is given. \<open>squash_elts\<close> is the loop, with the two
  lists built so far.
\<close>

fun squash_elts :: "json list \<Rightarrow> json list \<Rightarrow> json list \<Rightarrow> (json list \<times> json list) outcome" where
  "squash_elts ents rels [] = Returns (ents, rels)"
| "squash_elts ents rels (JObj kvs # elts) =
     bind (py_iter (case map_of kvs (str ''entities'') of None \<Rightarrow> JArr [] | Some v \<Rightarrow> v))
       (\<lambda>es. bind (py_iter (case map_of kvs (str ''relationships'') of
                               None \<Rightarrow> JArr [] | Some v \<Rightarrow> v))
          (\<lambda>rs. squash_elts (ents @ es) (rels @ rs) elts))"
| "squash_elts ents rels (elt # elts) = Raises AttributeError"

definition squash_list :: "json \<Rightarrow> json outcome" where
  "squash_list j =
     (case j of
        JArr elts \<Rightarrow>
          bind (squash_elts [] [] elts)
            (\<lambda>(ents, rels).
               Returns (JObj [(str ''entities'', JArr ents), (str ''relationships'', JArr rels)]))
      | _ \<Rightarrow> Returns j)"

definition NORM_TYPES :: "pystr list" where
  "NORM_TYPES = [str ''NCBI_Taxonomy'', str ''GeoNames'', str ''OntoBiotope'', str ''name'']"

text \<open>
  \<^verbatim>\<open>Entity.__init__\<close>, called as \<^verbatim>\<open>Entity(**ent)\<close>: the argument must be a dict
  (\<^verbatim>\<open>TypeError\<close> otherwise) with no member \<^verbatim>\<open>self\<close> (a second value for the first
  parameter, \<^verbatim>\<open>TypeError\<close>), \<^verbatim>\<open>type\<close> and \<^verbatim>\<open>name\<close> are required, and the first
  normalization kind present is taken. If none were present, reading
  \<^verbatim>\<open>self.normalization_type\<close> for the key would be an \<^verbatim>\<open>AttributeError\<close>.
\<close>

definition Entity_init :: "json \<Rightarrow> Entity outcome" where
  "Entity_init ent =
     (case ent of
        JObj args \<Rightarrow>
          if map_of args (str ''self'') \<noteq> None then Raises TypeError
          else
            (case map_of args (str ''type'') of
               None \<Rightarrow> Raises KeyError
             | Some t \<Rightarrow>
                 (case map_of args (str ''name'') of
                    None \<Rightarrow> Raises KeyError
                  | Some n \<Rightarrow>
                      (case find (\<lambda>nt. map_of args nt \<noteq> None) NORM_TYPES of
                         None \<Rightarrow> Raises AttributeError
                       | Some nt \<Rightarrow>
                           bind (as_ident (case map_of args (str ''id'') of
                                             None \<Rightarrow> JNull | Some i \<Rightarrow> i))
                             (\<lambda>i. bind (as_str t)
                                (\<lambda>t. bind (as_str n)
                                   (\<lambda>n. bind (as_str (the (map_of args nt)))
                                      (\<lambda>v. Returns
                                             \<lparr> id' = i, type' = t, name = n,
                                               normalization_type = nt,
                                               normalization_value = v \<rparr>)))))))
      | _ \<Rightarrow> Raises TypeError)"

text \<open>
  \<^verbatim>\<open>Relation.__init__\<close>: with \<^verbatim>\<open>arguments\<close>, its value is indexed by \<^verbatim>\<open>'source'\<close> and
  \<^verbatim>\<open>'target'\<close> (a \<^verbatim>\<open>TypeError\<close> unless it is a dict); without, \<^verbatim>\<open>target\<close> falls back to
  \<^verbatim>\<open>name\<close> when it is missing or false.
\<close>

definition subscript :: "json \<Rightarrow> pystr \<Rightarrow> json outcome" where
  "subscript v k =
     (case v of
        JObj kvs \<Rightarrow> (case map_of kvs k of None \<Rightarrow> Raises KeyError | Some x \<Rightarrow> Returns x)
      | _ \<Rightarrow> Raises TypeError)"

definition Relation_init :: "json \<Rightarrow> Relation outcome" where
  "Relation_init rel =
     (case rel of
        JObj args \<Rightarrow>
          if map_of args (str ''self'') \<noteq> None then Raises TypeError
          else
          bind (subscript rel (str ''type''))
            (\<lambda>t. bind
               (case map_of args (str ''arguments'') of
                  Some a \<Rightarrow>
                    bind (subscript a (str ''source''))
                      (\<lambda>s. bind (subscript a (str ''target'')) (\<lambda>g. Returns (s, g)))
                | None \<Rightarrow>
                    bind (subscript rel (str ''source''))
                      (\<lambda>s. bind
                         (case map_of args (str ''target'') of
                            None \<Rightarrow> subscript rel (str ''name'')
                          | Some g \<Rightarrow> if truthy g then Returns g else subscript rel (str ''name''))
                         (\<lambda>g. Returns (s, g))))
               (\<lambda>(s, g). bind (as_str t)
                  (\<lambda>t. bind (as_str s)
                     (\<lambda>s. bind (as_str g)
                        (\<lambda>g. Returns \<lparr> rel_type = t, source = s, target = g \<rparr>)))))
      | _ \<Rightarrow> Raises TypeError)"

text \<open>
  \<^verbatim>\<open>set(eq)\<close> for one member of \<^verbatim>\<open>equivalences\<close>: a list or dict among the elements is
  unhashable (\<^verbatim>\<open>TypeError\<close>); the set is kept as the list of its distinct members.
\<close>

fun hashable_ident :: "json \<Rightarrow> ident outcome" where
  "hashable_ident (JArr xs) = Raises TypeError"
| "hashable_ident (JObj kvs) = Raises TypeError"
| "hashable_ident v = as_ident v"

definition equivalence_set :: "json \<Rightarrow> ident list outcome" where
  "equivalence_set eq =
     bind (py_iter eq) (\<lambda>xs. bind (collect hashable_ident xs) (\<lambda>is. Returns (remdups is)))"

text \<open>
  \<^verbatim>\<open>Dataset.from_json_file\<close>. The file is its content, or \<open>None\<close> when there is no such
  file. \<open>loads\<close> is \<^verbatim>\<open>json.loads\<close>, with \<open>None\<close> for \<^verbatim>\<open>JSONDecodeError\<close>, the one
  exception of the parser the script handles. The parser can also raise
  \<^verbatim>\<open>RecursionError\<close> (very deep nesting) and \<^verbatim>\<open>ValueError\<close> (an over-long integer),
  which the script does not catch; texts on which it does are outside the model, and
  what is proved about unparseable text is proved for \<^verbatim>\<open>JSONDecodeError\<close>.
  \<open>Dataset_of\<close> is the part after the parse.
\<close>

definition Dataset_of :: "json \<Rightarrow> Dataset outcome" where
  "Dataset_of j0 =
     bind (squash_list j0)
       (\<lambda>j. case j of
          JObj kvs \<Rightarrow>
            let rel_json =
                  (case map_of kvs (str ''relationships'') of
                     None \<Rightarrow> JArr []
                   | Some v \<Rightarrow> if truthy v then v else JArr [])
            in bind (subscript j (str ''entities''))
                 (\<lambda>ent_json. bind (py_iter ent_json)
                    (\<lambda>ents. bind (collect Entity_init ents)
                       (\<lambda>entities. bind (py_iter rel_json)
                          (\<lambda>rels. bind (collect Relation_init rels)
                             (\<lambda>relations. bind
                                (case map_of kvs (str ''equivalences'') of
                                   None \<Rightarrow> Returns []
                                 | Some eqs \<Rightarrow>
                                     bind (py_iter eqs) (collect equivalence_set))
                                (\<lambda>equivalences.
                                   Returns \<lparr> entities = entities, relations = relations,
                                             equivalences = equivalences \<rparr>))))))
        | _ \<Rightarrow> Raises AttributeError)"

definition from_json_file :: "(pystr \<Rightarrow> json option) \<Rightarrow> pystr option \<Rightarrow> Dataset outcome" where
  "from_json_file loads file =
     (case file of
        None \<Rightarrow> Raises SystemExit
      | Some content \<Rightarrow>
          let jc = remove_last_comma (remove_codeblock (py_strip content))
          in (case loads jc of
                None \<Rightarrow> Returns \<lparr> entities = [], relations = [], equivalences = [] \<rparr>
              | Some j \<Rightarrow> Dataset_of j))"

definition MergedRefDataset_from_json_file ::
  "(pystr \<Rightarrow> json option) \<Rightarrow> pystr option \<Rightarrow> MergedRefDataset outcome" where
  "MergedRefDataset_from_json_file loads file =
     bind (from_json_file loads file) (\<lambda>ds. lift (merge_ref ds))"

text \<open>
  \<^verbatim>\<open>main\<close>. \<open>f_score\<close> reads the attribute \<^verbatim>\<open>f_score\<close> of the \<^verbatim>\<open>IEScores\<close> object. The
  handler of \<^verbatim>\<open>ZeroDivisionError\<close> covers the call of \<^verbatim>\<open>evaluate\<close> and that read; it
  logs \<^verbatim>\<open>WARNING: nil R/P\<close>, prints and returns 0.0, which is the result \<open>NilRP\<close>.
  \<open>Scored x\<close> is the normal return of the score \<open>x\<close>.
\<close>

datatype main_result = Scored rat | NilRP

fun returned :: "main_result \<Rightarrow> rat" where
  "returned (Scored x) = x"
| "returned NilRP = 0"

definition main ::
  "(pystr \<Rightarrow> pystr) \<Rightarrow> (pystr \<Rightarrow> json option)
   \<Rightarrow> ((MergedRelation \<Rightarrow> Relation \<Rightarrow> exn + rat) \<Rightarrow> MergedRelation list \<Rightarrow> Relation list
        \<Rightarrow> exn + 'p list)
   \<Rightarrow> ('p list \<Rightarrow> exn + 's) \<Rightarrow> ('s \<Rightarrow> exn + rat)
   \<Rightarrow> pystr option \<Rightarrow> pystr option \<Rightarrow> main_result outcome" where
  "main lower loads pairing scoring f_score ref_fn pred_fn =
     bind (MergedRefDataset_from_json_file loads ref_fn)
       (\<lambda>ref_ds. bind (from_json_file loads pred_fn)
          (\<lambda>pred_ds.
             case (case evaluate lower pairing scoring ref_ds pred_ds
                          (standard_type_similarity lower) (standard_arg_similarity lower) of
                     Inl e \<Rightarrow> Inl e
                   | Inr (scores, pairs) \<Rightarrow> f_score scores) of
               Inl ZeroDivisionError \<Rightarrow> Returns NilRP
             | Inl e \<Rightarrow> Raises e
             | Inr x \<Rightarrow> Returns (Scored x)))"



section \<open>Pairing and scores\<close>

text \<open>
  Modelled from the spec: the package \<^verbatim>\<open>evaluate\<close> (\<^verbatim>\<open>Pair\<close>, \<^verbatim>\<open>MunkresPairing\<close>,
  \<^verbatim>\<open>BaseScores\<close>, \<^verbatim>\<open>IEScores\<close>) is imported by the script and is not among the sources.
  What follows is written from the specification's sections on the pairing engine and
  the score aggregator.

  A \<open>Pair\<close> has an optional reference relation, an optional predicted relation and a
  score; a relation is named by its position in the list given to the pairing.
\<close>

datatype Pair = Pair (pair_ref: "nat option") (pair_pred: "nat option") (pair_score: rat)

text \<open>
  The weight matrix: the similarity of every reference relation (row) with every
  predicted relation (column); an exception of the similarity ends the pairing.
\<close>

fun weights_row :: "('b \<Rightarrow> exn + rat) \<Rightarrow> 'b list \<Rightarrow> exn + rat list" where
  "weights_row f [] = Inr []"
| "weights_row f (p # ps) =
     (case f p of
        Inl e \<Rightarrow> Inl e
      | Inr x \<Rightarrow> (case weights_row f ps of Inl e \<Rightarrow> Inl e | Inr xs \<Rightarrow> Inr (x # xs)))"

fun weights :: "('a \<Rightarrow> 'b \<Rightarrow> exn + rat) \<Rightarrow> 'a list \<Rightarrow> 'b list \<Rightarrow> exn + rat list list" where
  "weights sim [] pred = Inr []"
| "weights sim (r # ref) pred =
     (case weights_row (sim r) pred of
        Inl e \<Rightarrow> Inl e
      | Inr row \<Rightarrow> (case weights sim ref pred of Inl e \<Rightarrow> Inl e | Inr rows \<Rightarrow> Inr (row # rows)))"

text \<open>
  Every assignment of the rows \<open>is\<close> to the columns \<open>js\<close>: a row stays unmatched or takes
  a column no other row has. \<open>total\<close> is the summed weight of an assignment and
  \<open>best_of\<close> the first candidate of the largest total.
\<close>

fun assignments :: "nat list \<Rightarrow> nat list \<Rightarrow> (nat \<times> nat) list list" where
  "assignments [] js = [[]]"
| "assignments (i # is) js =
     assignments is js
       @ concat (map (\<lambda>j. map (\<lambda>a. (i, j) # a) (assignments is (removeAll j js))) js)"

definition total :: "rat list list \<Rightarrow> (nat \<times> nat) list \<Rightarrow> rat" where
  "total w m = sum_list (map (\<lambda>(i, j). w ! i ! j) m)"

definition best_of :: "('a \<Rightarrow> rat) \<Rightarrow> 'a \<Rightarrow> 'a list \<Rightarrow> 'a" where
  "best_of f b xs = fold (\<lambda>x b. if f x > f b then x else b) xs b"

text \<open>
  The pairs of an assignment: the matched pairs with their similarity, then every
  unmatched reference relation and every unmatched prediction with the other side
  absent and score 0.
\<close>

definition pairs_of :: "rat list list \<Rightarrow> nat \<Rightarrow> nat \<Rightarrow> (nat \<times> nat) list \<Rightarrow> Pair list" where
  "pairs_of w R P m =
     map (\<lambda>(i, j). Pair (Some i) (Some j) (w ! i ! j)) m
       @ map (\<lambda>i. Pair (Some i) None 0) (filter (\<lambda>i. i \<notin> fst ` set m) [0..<R])
       @ map (\<lambda>j. Pair None (Some j) 0) (filter (\<lambda>j. j \<notin> snd ` set m) [0..<P])"

definition get_pairs ::
  "('a \<Rightarrow> 'b \<Rightarrow> exn + rat) \<Rightarrow> 'a list \<Rightarrow> 'b list \<Rightarrow> exn + Pair list" where
  "get_pairs sim ref pred =
     (case weights sim ref pred of
        Inl e \<Rightarrow> Inl e
      | Inr w \<Rightarrow>
          Inr (pairs_of w (length ref) (length pred)
                 (best_of (total w) []
                    (assignments [0..<length ref] [0..<length pred]))))"

text \<open>
  Modelled from the spec: the base scores under the strict policy. A pair is a true
  positive when both sides are present and its score is 1; a reference relation that is
  not in a true positive is a false negative, a prediction that is not is a false
  positive. Precision, recall and F1 are Python divisions, which raise
  \<^verbatim>\<open>ZeroDivisionError\<close> on a zero denominator.
\<close>

definition py_div :: "rat \<Rightarrow> rat \<Rightarrow> exn + rat" where
  "py_div a b = (if b = 0 then Inl ZeroDivisionError else Inr (a / b))"

definition true_positive :: "Pair \<Rightarrow> bool" where
  "true_positive p = (pair_ref p \<noteq> None \<and> pair_pred p \<noteq> None \<and> pair_score p = 1)"

record Scores =
  precision :: rat
  recall :: rat
  f1 :: rat

definition BaseScores :: "Pair list \<Rightarrow> exn + Scores" where
  "BaseScores pairs =
     (let tp = length (filter true_positive pairs);
          fn = length (filter (\<lambda>p. pair_ref p \<noteq> None \<and> \<not> true_positive p) pairs);
          fp = length (filter (\<lambda>p. pair_pred p \<noteq> None \<and> \<not> true_positive p) pairs)
      in case py_div (of_nat tp) (of_nat (tp + fp)) of
           Inl e \<Rightarrow> Inl e
         | Inr pr \<Rightarrow>
             (case py_div (of_nat tp) (of_nat (tp + fn)) of
                Inl e \<Rightarrow> Inl e
              | Inr rc \<Rightarrow>
                  (case py_div (2 * pr * rc) (pr + rc) of
                     Inl e \<Rightarrow> Inl e
                   | Inr f \<Rightarrow> Inr \<lparr> precision = pr, recall = rc, f1 = f \<rparr>)))"

text \<open>
  Modelled from the spec: \<^verbatim>\<open>f_score\<close> is the harmonic mean of precision and recall. The
  specification leaves open which pairs \<^verbatim>\<open>IEScores\<close> counts as couples; with none, its
  precision and recall are the base ones.
\<close>

definition f_score :: "Scores \<Rightarrow> exn + rat" where
  "f_score scores = Inr (f1 scores)"

text \<open>An outcome other than the exception \<^verbatim>\<open>ZeroDivisionError\<close>.\<close>

definition no_zde :: "'a outcome \<Rightarrow> bool" where
  "no_zde x = (x \<noteq> Raises ZeroDivisionError)"


section \<open>Notions used to state the properties\<close>

text \<open>
  The overlap of two token sequences at a shift: \<open>seq1\<close> from position \<open>- shift\<close> (for
  a negative shift) against \<open>seq2\<close> from position \<open>shift\<close> (for a positive one), as long
  as both last. The shift is \<open>aligned\<close> when the sequences agree on the whole overlap.
  \<open>best_overlap\<close> is the longest overlap of an aligned shift, 0 if there is none, and
  \<open>seq_score\<close> the ratio built from it.
\<close>

definition overlap :: "'a list \<Rightarrow> 'a list \<Rightarrow> int \<Rightarrow> nat" where
  "overlap seq1 seq2 shift = min (length seq1 - nat (- shift)) (length seq2 - nat shift)"

definition aligned :: "'a list \<Rightarrow> 'a list \<Rightarrow> int \<Rightarrow> bool" where
  "aligned seq1 seq2 shift =
     (take (overlap seq1 seq2 shift) (drop (nat (- shift)) seq1)
        = take (overlap seq1 seq2 shift) (drop (nat shift) seq2))"

definition best_overlap :: "'a list \<Rightarrow> 'a list \<Rightarrow> nat" where
  "best_overlap seq1 seq2 =
     Max (insert 0 (overlap seq1 seq2 `
        {shift \<in> {1 - int (length seq1) .. int (length seq2) - 1}. aligned seq1 seq2 shift}))"

definition seq_score :: "'a list \<Rightarrow> 'a list \<Rightarrow> rat" where
  "seq_score seq1 seq2 =
     of_nat (best_overlap seq1 seq2)
       / of_nat (length seq1 + length seq2 - best_overlap seq1 seq2)"

text \<open>
  The reading of the specification: at each shift, \<open>m\<close> is the length of the literal
  token-by-token match that starts at the aligned position (\<open>match_run\<close>), and the score
  is built from the largest \<open>m\<close>.
\<close>

fun match_run :: "'a list \<Rightarrow> 'a list \<Rightarrow> nat" where
  "match_run (x # xs) (y # ys) = (if x = y then Suc (match_run xs ys) else 0)"
| "match_run xs ys = 0"

definition spec_best :: "'a list \<Rightarrow> 'a list \<Rightarrow> nat" where
  "spec_best seq1 seq2 =
     fold max
       (map (\<lambda>shift. match_run (drop (nat (- shift)) seq1) (drop (nat shift) seq2))
          [1 - int (length seq1) .. int (length seq2) - 1])
       0"

definition spec_score :: "'a list \<Rightarrow> 'a list \<Rightarrow> rat" where
  "spec_score seq1 seq2 =
     of_nat (spec_best seq1 seq2)
       / of_nat (length seq1 + length seq2 - spec_best seq1 seq2)"

text \<open>The candidate name after \<^verbatim>\<open>match_name\<close> and \<^verbatim>\<open>jaccard_name\<close> strip its quotes.\<close>

definition unquote :: "pystr \<Rightarrow> pystr" where
  "unquote pred_name =
     (if hd pred_name \<in> QUOTES \<and> last pred_name \<in> QUOTES then butlast (tl pred_name)
      else pred_name)"


text \<open>
  A prediction is \<open>perfect\<close> for a reference relation when the strict similarity of
  the two is 1. The prediction at position \<open>j\<close> is redundant when it is perfect for a
  reference relation for which an earlier prediction is perfect too; \<open>kept\<close> are the
  predictions that are not redundant, in their order. A prediction is \<open>nameless\<close> when
  its source or its target is the empty string.
\<close>

definition perfect :: "(pystr \<Rightarrow> pystr) \<Rightarrow> MergedRelation \<Rightarrow> Relation \<Rightarrow> bool" where
  "perfect lower r p =
     (relation_similarity (standard_type_similarity lower) (standard_arg_similarity lower) r p
        = Inr 1)"

definition redundant_at ::
  "(pystr \<Rightarrow> pystr) \<Rightarrow> MergedRelation list \<Rightarrow> Relation list \<Rightarrow> nat \<Rightarrow> bool" where
  "redundant_at lower ref pred j =
     list_ex (\<lambda>r. perfect lower r (pred ! j) \<and> list_ex (\<lambda>i. perfect lower r (pred ! i)) [0..<j])
       ref"

definition kept :: "(pystr \<Rightarrow> pystr) \<Rightarrow> MergedRelation list \<Rightarrow> Relation list \<Rightarrow> Relation list" where
  "kept lower ref pred =
     map (nth pred) (filter (\<lambda>j. \<not> redundant_at lower ref pred j) [0..<length pred])"

definition nameless :: "Relation \<Rightarrow> bool" where
  "nameless p = (source p = [] \<or> target p = [])"

text \<open>
  A relation is \<open>known\<close> to an id index when the index has its source and its target.
  \<open>raw_key\<close> is then the key \<^verbatim>\<open>Relation.key\<close> computes, and \<open>merged_of\<close> the merged
  relation \<^verbatim>\<open>MergedRelation\<close> builds.
\<close>

definition known :: "(ident \<rightharpoonup> MergedEntity) \<Rightarrow> Relation \<Rightarrow> bool" where
  "known m r = (m (Some (source r)) \<noteq> None \<and> m (Some (target r)) \<noteq> None)"

definition raw_key :: "(ident \<rightharpoonup> MergedEntity) \<Rightarrow> Relation \<Rightarrow> relation_key" where
  "raw_key m r =
     (rel_type r, me_key (the (m (Some (source r)))), me_key (the (m (Some (target r)))))"

definition merged_of :: "(ident \<rightharpoonup> MergedEntity) \<Rightarrow> Relation \<Rightarrow> MergedRelation" where
  "merged_of m r =
     \<lparr> mr_type = rel_type r, mr_source = the (m (Some (source r))),
       mr_target = the (m (Some (target r))) \<rparr>"

text \<open>
  A cluster has the identity of an entity when its key, type and normalization are
  that entity's. The first member of a cluster is the first entity of the dataset whose
  id the cluster holds.
\<close>

definition same_identity :: "MergedEntity \<Rightarrow> Entity \<Rightarrow> bool" where
  "same_identity c e =
     (me_key c = key e \<and> me_type c = type' e
      \<and> me_normalization_type c = normalization_type e
      \<and> me_normalization_value c = normalization_value e)"

definition first_member :: "Entity list \<Rightarrow> MergedEntity \<Rightarrow> Entity option" where
  "first_member ents c = find (\<lambda>e. id' e \<in> set (ids c)) ents"

text \<open>
  The invariant of the loop of \<^verbatim>\<open>_merge_ref_entities\<close> after the entities \<open>xs\<close>, whose ids
  differ: the two dictionaries point into the store; every cluster holds ids of \<open>xs\<close>
  only and has the identity of its first member; every entity of \<open>xs\<close> is in a cluster;
  two clusters share no id. \<open>holds st k i K\<close>: the cluster at position \<open>k\<close> of the store has
  the id \<open>i\<close> and the key \<open>K\<close>.
\<close>

definition maps_wf :: "merge_state \<Rightarrow> bool" where
  "maps_wf st =
     ((\<forall>k n. ent_map st k = Some n \<longrightarrow> n < length (clusters st))
      \<and> (\<forall>i n. eqid_map st i = Some n \<longrightarrow> n < length (clusters st)))"

definition cluster_inv :: "Entity list \<Rightarrow> MergedEntity list \<Rightarrow> bool" where
  "cluster_inv xs cs =
     ((\<forall>k < length cs. set (ids (cs ! k)) \<subseteq> id' ` set xs)
      \<and> (\<forall>k < length cs. \<exists>e. first_member xs (cs ! k) = Some e \<and> same_identity (cs ! k) e)
      \<and> (\<forall>e \<in> set xs. \<exists>k < length cs. id' e \<in> set (ids (cs ! k)))
      \<and> (\<forall>k < length cs. \<forall>k' < length cs.
            k \<noteq> k' \<longrightarrow> set (ids (cs ! k)) \<inter> set (ids (cs ! k')) = {}))"

definition holds :: "merge_state \<Rightarrow> nat \<Rightarrow> ident \<Rightarrow> entity_key \<Rightarrow> bool" where
  "holds st k i K =
     (k < length (clusters st) \<and> i \<in> set (ids (clusters st ! k)) \<and> me_key (clusters st ! k) = K)"

text \<open>
  A \<open>matching\<close> of \<open>R\<close> reference relations and \<open>P\<close> predictions is a list of
  (reference, prediction) positions in which no reference relation and no prediction
  occurs twice. \<open>matched\<close> are the pairs of a pairing with both sides present.
\<close>

definition matching :: "nat \<Rightarrow> nat \<Rightarrow> (nat \<times> nat) list \<Rightarrow> bool" where
  "matching R P m =
     (distinct (map fst m) \<and> distinct (map snd m) \<and> list_all (\<lambda>(i, j). i < R \<and> j < P) m)"

fun matched_of :: "Pair \<Rightarrow> (nat \<times> nat) list" where
  "matched_of (Pair (Some i) (Some j) s) = [(i, j)]"
| "matched_of p = []"

definition matched :: "Pair list \<Rightarrow> (nat \<times> nat) list" where
  "matched pairs = concat (map matched_of pairs)"


section \<open>Example data\<close>

definition ex_ref :: MergedEntity where
  "ex_ref =
     \<lparr> me_type = str ''Organism'', ids = [Some (str ''e1'')], names = [str ''A B C''],
       me_normalization_type = str ''name'', me_normalization_value = str ''A B C'',
       me_key = (str ''Organism'', str ''name'', str ''A B C'') \<rparr>"

definition ex_source :: MergedEntity where
  "ex_source =
     \<lparr> me_type = str ''Organism'', ids = [Some (str ''e1'')], names = [str ''E. coli''],
       me_normalization_type = str ''NCBI_Taxonomy'', me_normalization_value = str ''562'',
       me_key = (str ''Organism'', str ''NCBI_Taxonomy'', str ''562'') \<rparr>"

definition ex_target :: MergedEntity where
  "ex_target =
     \<lparr> me_type = str ''Disease'', ids = [Some (str ''e2'')], names = [str ''diarrhea''],
       me_normalization_type = str ''name'', me_normalization_value = str ''diarrhea'',
       me_key = (str ''Disease'', str ''name'', str ''diarrhea'') \<rparr>"

definition ex_rel :: MergedRelation where
  "ex_rel = \<lparr> mr_type = str ''Cause'', mr_source = ex_source, mr_target = ex_target \<rparr>"

definition ex_pred :: Relation where
  "ex_pred = \<lparr> rel_type = str ''causes'', source = str ''e. coli'', target = str ''Diarrhea'' \<rparr>"

definition ex_e1 :: Entity where
  "ex_e1 = \<lparr> id' = Some (str ''e1''), type' = str ''Organism'', name = str ''E. coli'',
     normalization_type = str ''NCBI_Taxonomy'', normalization_value = str ''562'' \<rparr>"

definition ex_e2 :: Entity where
  "ex_e2 = \<lparr> id' = Some (str ''e2''), type' = str ''Disease'', name = str ''diarrhea'',
     normalization_type = str ''name'', normalization_value = str ''diarrhea'' \<rparr>"

definition ex_dataset :: "Relation list \<Rightarrow> Dataset" where
  "ex_dataset rels = \<lparr> entities = [ex_e1, ex_e2], relations = rels, equivalences = [] \<rparr>"

definition ex_r :: "string \<Rightarrow> Relation" where
  "ex_r t = \<lparr> rel_type = str t, source = str ''e1'', target = str ''e2'' \<rparr>"

definition ex_e3 :: Entity where
  "ex_e3 = \<lparr> id' = Some (str ''e3''), type' = str ''Organism'', name = str ''Escherichia coli'',
     normalization_type = str ''NCBI_Taxonomy'', normalization_value = str ''562'' \<rparr>"

definition ex_e4 :: Entity where
  "ex_e4 = \<lparr> id' = Some (str ''e4''), type' = str ''Organism'', name = str ''colibacillus'',
     normalization_type = str ''name'', normalization_value = str ''colibacillus'' \<rparr>"

definition ex_e5 :: Entity where
  "ex_e5 = \<lparr> id' = Some (str ''e5''), type' = str ''Organism'', name = str ''E. coli K-12'',
     normalization_type = str ''NCBI_Taxonomy'', normalization_value = str ''83333'' \<rparr>"

definition ex_e6 :: Entity where
  "ex_e6 =
     \<lparr> id' = Some (str ''e6''), type' = str ''Organism'', name = str ''Escherichia coli K-12'',
       normalization_type = str ''NCBI_Taxonomy'', normalization_value = str ''83333'' \<rparr>"

definition ex_bridged :: Dataset where
  "ex_bridged =
     \<lparr> entities = [ex_e1, ex_e3, ex_e2, ex_e4], relations = [],
       equivalences = [[Some (str ''e1''), Some (str ''e4'')]] \<rparr>"

definition ex_unbridged :: Dataset where
  "ex_unbridged =
     \<lparr> entities = [ex_e1, ex_e5, ex_e6], relations = [],
       equivalences = [[Some (str ''e1''), Some (str ''e6'')]] \<rparr>"

text \<open>The JSON document that \<^verbatim>\<open>from_json_file\<close> reads as \<open>ex_unbridged\<close>.\<close>

definition ex_entity_json :: "string \<Rightarrow> string \<Rightarrow> string \<Rightarrow> json" where
  "ex_entity_json i n v =
     JObj [(str ''id'', JStr (str i)), (str ''type'', JStr (str ''Organism'')),
           (str ''name'', JStr (str n)), (str ''NCBI_Taxonomy'', JStr (str v))]"

definition ex_unbridged_json :: json where
  "ex_unbridged_json =
     JObj [(str ''entities'',
              JArr [ex_entity_json ''e1'' ''E. coli'' ''562'',
                    ex_entity_json ''e5'' ''E. coli K-12'' ''83333'',
                    ex_entity_json ''e6'' ''Escherichia coli K-12'' ''83333'']),
           (str ''equivalences'', JArr [JArr [JStr (str ''e1''), JStr (str ''e6'')]])]"

text \<open>
  The similarities of the specification's example of optimal against greedy pairing:
  0.9 and 1.0 for the first reference relation, 1.0 and 0 for the second.
\<close>

definition ex_sim :: "nat \<Rightarrow> nat \<Rightarrow> exn + rat" where
  "ex_sim r p = Inr (if r = 0 \<and> p = 0 then 9 / 10 else if r = p then 0 else 1)"

text \<open>
  \<^verbatim>\<open>json.loads\<close> on the texts of the examples: \<^verbatim>\<open>{}\<close> is the empty object and \<^verbatim>\<open>[]\<close>
  the empty array; the one other text the examples read, \<^verbatim>\<open>{\<close>, is not JSON.
\<close>

definition loads_example :: "pystr \<Rightarrow> json option" where
  "loads_example s =
     (if s = str ''{}'' then Some (JObj [])
      else if s = str ''[]'' then Some (JArr [])
      else None)"


section \<open>Argument similarity\<close>

lemma jaccard_step_max:
  "jaccard_step seq1 seq2 shift best =
     (if aligned seq1 seq2 shift then max best (overlap seq1 seq2 shift) else best)"
  by (auto simp: jaccard_step_def aligned_def overlap_def Let_def max_def nat_minus_as_int)

lemma Max_insert_max:
  assumes "finite S"
  shows "Max (insert (max b c) S) = Max (insert (b::nat) (insert c S))"
proof (cases "S = {}")
  case True
  then show ?thesis by (simp add: max.commute)
next
  case False
  then show ?thesis using assms by (simp add: max.assoc)
qed

lemma fold_jaccard_step:
  "fold (jaccard_step seq1 seq2) ks b =
     Max (insert b (overlap seq1 seq2 ` {k \<in> set ks. aligned seq1 seq2 k}))"
proof (induction ks arbitrary: b)
  case Nil
  then show ?case by simp
next
  case (Cons k ks)
  let ?S = "overlap seq1 seq2 ` {x \<in> set ks. aligned seq1 seq2 x}"
  have fin: "finite ?S" by simp
  show ?case
  proof (cases "aligned seq1 seq2 k")
    case True
    then have eq: "overlap seq1 seq2 ` {x \<in> set (k # ks). aligned seq1 seq2 x}
        = insert (overlap seq1 seq2 k) ?S"
      by auto
    have "fold (jaccard_step seq1 seq2) (k # ks) b
        = fold (jaccard_step seq1 seq2) ks (max b (overlap seq1 seq2 k))"
      using True by (simp add: jaccard_step_max)
    also have "\<dots> = Max (insert (max b (overlap seq1 seq2 k)) ?S)"
      by (rule Cons.IH)
    also have "\<dots> = Max (insert b (insert (overlap seq1 seq2 k) ?S))"
      by (rule Max_insert_max[OF fin])
    finally show ?thesis unfolding eq .
  next
    case False
    then have eq: "overlap seq1 seq2 ` {x \<in> set (k # ks). aligned seq1 seq2 x} = ?S"
      by auto
    have "fold (jaccard_step seq1 seq2) (k # ks) b = fold (jaccard_step seq1 seq2) ks b"
      using False by (simp add: jaccard_step_max)
    also have "\<dots> = Max (insert b ?S)" by (rule Cons.IH)
    finally show ?thesis unfolding eq .
  qed
qed

lemma best_overlap_le: "best_overlap seq1 seq2 \<le> min (length seq1) (length seq2)"
proof -
  let ?K = "{shift \<in> {1 - int (length seq1) .. int (length seq2) - 1}. aligned seq1 seq2 shift}"
  let ?S = "overlap seq1 seq2 ` ?K"
  have "finite ?K"
    by (rule finite_subset[of _ "{1 - int (length seq1) .. int (length seq2) - 1}"]) auto
  then have fin: "finite (insert 0 ?S)" by blast
  have bound: "\<And>x. x \<in> insert 0 ?S \<Longrightarrow> x \<le> min (length seq1) (length seq2)"
    by (auto simp: overlap_def)
  have "Max (insert 0 ?S) \<in> insert 0 ?S" using fin by (intro Max_in) blast+
  then show ?thesis unfolding best_overlap_def by (rule bound)
qed

lemma jaccard_seq_score:
  "jaccard_seq seq1 seq2 =
     (if seq1 = [] \<and> seq2 = [] then Inl ZeroDivisionError else Inr (seq_score seq1 seq2))"
proof -
  have b: "fold (jaccard_step seq1 seq2) [1 - int (length seq1) .. int (length seq2) - 1] 0
      = best_overlap seq1 seq2"
    by (simp add: fold_jaccard_step best_overlap_def)
  have le: "best_overlap seq1 seq2 \<le> min (length seq1) (length seq2)"
    by (rule best_overlap_le)
  show ?thesis
  proof (cases "seq1 = [] \<and> seq2 = []")
    case True
    then show ?thesis using le by (simp add: jaccard_seq_def b Let_def)
  next
    case False
    then have pos: "int (length seq1) + int (length seq2) - int (best_overlap seq1 seq2) \<noteq> 0"
      using le by (cases seq1; cases seq2) auto
    have "int (length seq1) + int (length seq2) - int (best_overlap seq1 seq2)
        = int (length seq1 + length seq2 - best_overlap seq1 seq2)"
      using le by auto
    then show ?thesis
      using False pos
      by (simp add: jaccard_seq_def seq_score_def b Let_def del: of_nat_add of_nat_diff)
  qed
qed

lemma py_max_from_scores:
  "py_max_from b (map (\<lambda>n. if bad n then Inl ZeroDivisionError else Inr (sc n)) ns) =
     (if list_ex bad ns then Inl ZeroDivisionError else Inr (Max (insert b (sc ` set ns))))"
proof (induction ns arbitrary: b)
  case Nil
  then show ?case by simp
next
  case (Cons n ns)
  show ?case
  proof (cases "bad n")
    case True
    then show ?thesis by simp
  next
    case False
    have m: "Max (insert (if b < sc n then sc n else b) (sc ` set ns)) = Max (insert b (insert (sc n) (sc ` set ns)))"
    proof (cases "sc ` set ns = {}")
      case True
      then show ?thesis by (simp add: max_def)
    next
      case False
      then show ?thesis by (simp add: max_def) 
    qed
    show ?thesis using False Cons.IH[of "if b < sc n then sc n else b"] m by simp
  qed
qed

lemma py_max_scores:
  assumes "ns \<noteq> []"
  shows "py_max (map (\<lambda>n. if bad n then Inl ZeroDivisionError else Inr (sc n)) ns) =
     (if list_ex bad ns then Inl ZeroDivisionError else Inr (Max (sc ` set ns)))"
proof -
  obtain n ns' where ns: "ns = n # ns'" using assms by (cases ns) auto
  show ?thesis unfolding ns by (simp add: py_max_from_scores)
qed

lemma jaccard_name_unquote:
  "pred_name \<noteq> [] \<Longrightarrow> jaccard_name lower self pred_name =
     py_max (map (\<lambda>name. jaccard_seq (py_split (lower name)) (py_split (lower (unquote pred_name)))) (names self))"
  by (cases pred_name) (simp_all add: jaccard_name_def unquote_def Let_def)

text \<open>
  Claim C1, as the code has it. \<^verbatim>\<open>_jaccard_seq\<close> raises \<^verbatim>\<open>ZeroDivisionError\<close> when both
  token sequences are empty and otherwise returns \<open>best / (n1 + n2 - best)\<close>, where
  \<open>best\<close> is the longest overlap among the shifts of \<open>[1 - n1, n2 - 1]\<close> at which the two
  sequences agree on their whole overlap (0 if there is none). For a non-empty
  candidate name and a merged entity with a surface name, \<^verbatim>\<open>jaccard_name\<close> strips one
  pair of enclosing quotes from the candidate, lowercases and splits it and every
  surface name at whitespace, and returns the maximum of that score over the surface
  names; it raises \<^verbatim>\<open>ZeroDivisionError\<close> when the candidate and one surface name both have
  no token. Tokens \<open>[a, b, c]\<close> against \<open>[b, c, d]\<close> score \<open>2 / (3 + 3 - 2) = 1/2\<close>.
\<close>

theorem jaccard_name_alignment:
  "(jaccard_seq seq1 seq2 =
      (if seq1 = [] \<and> seq2 = [] then Inl ZeroDivisionError else Inr (seq_score seq1 seq2)))
   \<and> (pred_name \<noteq> [] \<and> names self \<noteq> [] \<longrightarrow>
        jaccard_name lower self pred_name =
          (if py_split (lower (unquote pred_name)) = []
              \<and> list_ex (\<lambda>name. py_split (lower name) = []) (names self)
           then Inl ZeroDivisionError
           else Inr (Max ((\<lambda>name. seq_score (py_split (lower name))
                                   (py_split (lower (unquote pred_name)))) ` set (names self)))))
   \<and> jaccard_seq [str ''a'', str ''b'', str ''c''] [str ''b'', str ''c'', str ''d''] = Inr (1 / 2)"
proof (intro conjI impI)
  show "jaccard_seq seq1 seq2 =
      (if seq1 = [] \<and> seq2 = [] then Inl ZeroDivisionError else Inr (seq_score seq1 seq2))"
    by (rule jaccard_seq_score)
next
  assume a: "pred_name \<noteq> [] \<and> names self \<noteq> []"
  let ?pt = "py_split (lower (unquote pred_name))"
  have f: "(\<lambda>name. jaccard_seq (py_split (lower name)) ?pt)
      = (\<lambda>name. if py_split (lower name) = [] \<and> ?pt = [] then Inl ZeroDivisionError
                 else Inr (seq_score (py_split (lower name)) ?pt))"
    by (rule ext) (rule jaccard_seq_score)
  have ex: "list_ex (\<lambda>name. py_split (lower name) = [] \<and> ?pt = []) (names self)
      = (?pt = [] \<and> list_ex (\<lambda>name. py_split (lower name) = []) (names self))"
    by (auto simp: list_ex_iff)
  show "jaccard_name lower self pred_name =
          (if ?pt = [] \<and> list_ex (\<lambda>name. py_split (lower name) = []) (names self)
           then Inl ZeroDivisionError
           else Inr (Max ((\<lambda>name. seq_score (py_split (lower name)) ?pt) ` set (names self))))"
  proof -
    from a have p: "pred_name \<noteq> []" and n: "names self \<noteq> []" by simp_all
    have "jaccard_name lower self pred_name =
        py_max (map (\<lambda>name. jaccard_seq (py_split (lower name)) ?pt) (names self))"
      by (rule jaccard_name_unquote[OF p])
    also have "\<dots> = py_max (map (\<lambda>name. if py_split (lower name) = [] \<and> ?pt = []
                 then Inl ZeroDivisionError
                 else Inr (seq_score (py_split (lower name)) ?pt)) (names self))"
      by (simp only: f)
    also have "\<dots> = (if list_ex (\<lambda>name. py_split (lower name) = [] \<and> ?pt = []) (names self)
         then Inl ZeroDivisionError
         else Inr (Max ((\<lambda>name. seq_score (py_split (lower name)) ?pt) ` set (names self))))"
      by (rule py_max_scores[OF n])
    finally show ?thesis by (simp only: ex)
  qed
next
  show "jaccard_seq [str ''a'', str ''b'', str ''c''] [str ''b'', str ''c'', str ''d''] = Inr (1 / 2)"
    by (simp add: jaccard_seq_def jaccard_step_def str_def upto.simps Let_def)
qed

theorem jaccard_name_alignment_witness:
  "str ''b c d'' \<noteq> [] \<and> names ex_ref \<noteq> []
   \<and> jaccard_name ascii_lower ex_ref (str ''b c d'') = Inr (1 / 2)
   \<and> Max ((\<lambda>name. seq_score (py_split (ascii_lower name))
                     (py_split (ascii_lower (unquote (str ''b c d''))))) ` set (names ex_ref))
       = 1 / 2"
proof -
  have v: "jaccard_name ascii_lower ex_ref (str ''b c d'') = Inr (1 / 2)"
    by (simp add: jaccard_name_def ex_ref_def str_def ascii_lower_def py_split_def isspace_def
        QUOTES_def jaccard_seq_def jaccard_step_def upto.simps Let_def)
  have p: "str ''b c d'' \<noteq> [] \<and> names ex_ref \<noteq> []"
    by (simp add: str_def ex_ref_def)
  have t: "py_split (ascii_lower (unquote (str ''b c d''))) \<noteq> []"
    by (simp add: unquote_def str_def ascii_lower_def py_split_def isspace_def QUOTES_def)
  let ?m = "Max ((\<lambda>name. seq_score (py_split (ascii_lower name))
                     (py_split (ascii_lower (unquote (str ''b c d''))))) ` set (names ex_ref))"
  have "jaccard_name ascii_lower ex_ref (str ''b c d'') = Inr ?m"
    using jaccard_name_alignment[of "[]" "[]" "str ''b c d''" ex_ref ascii_lower] p t
    by presburger
  then have "?m = 1 / 2" unfolding v by (simp only: sum.inject)
  then show ?thesis using p v by blast
qed

text \<open>
  Claim C1 as stated reads \<open>m\<close> as the length of the literal token-by-token match that
  starts at the aligned position. On \<open>[a, b, c]\<close> against \<open>[a, b, d]\<close> that match has
  length 2 at shift 0 and the score would be \<open>2 / (3 + 3 - 2) = 1/2\<close>; the code counts a
  shift only when the whole overlap agrees and returns 0. A candidate of one space
  against a surface name of one space does not return a score at all.
\<close>

theorem jaccard_seq_not_match_run:
  "jaccard_seq [str ''a'', str ''b'', str ''c''] [str ''a'', str ''b'', str ''d''] = Inr 0
   \<and> spec_score [str ''a'', str ''b'', str ''c''] [str ''a'', str ''b'', str ''d''] = 1 / 2
   \<and> jaccard_name ascii_lower (ex_ref\<lparr>names := [str '' '']\<rparr>) (str '' '')
       = Inl ZeroDivisionError"
  by (simp add: jaccard_seq_def jaccard_step_def spec_score_def spec_best_def str_def
      upto.simps Let_def jaccard_name_def ex_ref_def ascii_lower_def py_split_def isspace_def
      QUOTES_def)

text \<open>
  Claim C10. With the empty string as the predicted name, name matching and the
  token-alignment similarity raise \<^verbatim>\<open>IndexError\<close>, and so do the strict and the relaxed
  argument similarity built on them; the redundancy filter, which every evaluation
  runs first, raises it as soon as a reference relation meets a prediction whose source
  or target is empty.
\<close>

theorem empty_name_IndexError:
  "match_name lower self [] = Inl IndexError
   \<and> jaccard_name lower self [] = Inl IndexError
   \<and> standard_arg_similarity lower self [] = Inl IndexError
   \<and> relaxed_arg_similarity lower self [] = Inl IndexError
   \<and> pred_redundant lower (r # ref) (p\<lparr>source := []\<rparr> # pred) = Inl IndexError
   \<and> pred_redundant lower (r # ref) (p\<lparr>target := []\<rparr> # pred) = Inl IndexError"
  by (simp add: match_name_def jaccard_name_def standard_arg_similarity_def
      relaxed_arg_similarity_def relation_similarity_def standard_type_similarity_def
      split: sum.splits list.splits)


section \<open>Reading and the main operation\<close>

lemma scan_pred_Nil: "scan_pred sim found i [] = Inr []" by simp

lemma pred_redundant_Nil: "pred_redundant lower ref [] = Inr []"
  by (induction ref) simp_all

lemma evaluate_no_prediction:
  "evaluate lower pairing scoring ref \<lparr> entities = [], relations = [], equivalences = [] \<rparr> type_sim arg_sim =
     (case pairing (relation_similarity type_sim arg_sim) (ref_relations ref) [] of
        Inl e \<Rightarrow> Inl e
      | Inr pairs \<Rightarrow> (case scoring pairs of Inl e \<Rightarrow> Inl e | Inr scores \<Rightarrow> Inr (scores, pairs)))"
  by (simp add: evaluate_def pred_redundant_Nil not_redundant_def)

lemma repair_brace: "remove_last_comma (remove_codeblock (py_strip (str ''{''))) = str ''{''"
  by (simp add: py_strip_def remove_codeblock_def str_def isspace_def FENCE_def)

lemma repair_obj: "remove_last_comma (remove_codeblock (py_strip (str ''{}''))) = str ''{}''"
  by (simp add: py_strip_def remove_codeblock_def str_def isspace_def FENCE_def)

lemma repair_arr: "remove_last_comma (remove_codeblock (py_strip (str ''[]''))) = str ''[]''"
  by (simp add: py_strip_def remove_codeblock_def str_def isspace_def FENCE_def)

lemma loads_brace: "loads_example (str ''{'') = None"
  by (simp add: loads_example_def str_def)
lemma loads_obj: "loads_example (str ''{}'') = Some (JObj [])"
  by (simp add: loads_example_def str_def)
lemma loads_arr: "loads_example (str ''[]'') = Some (JArr [])"
  by (simp add: loads_example_def str_def)

lemma from_arr: "from_json_file loads_example (Some (str ''[]'')) = Returns \<lparr> entities = [], relations = [], equivalences = [] \<rparr>"
proof -
  have "Dataset_of (JArr []) = Returns \<lparr> entities = [], relations = [], equivalences = [] \<rparr>"
    by (simp add: Dataset_of_def squash_list_def subscript_def str_def)
  then show ?thesis by (simp add: from_json_file_def repair_arr loads_arr)
qed

lemma merge_empty: "merge_ref \<lparr> entities = [], relations = [], equivalences = [] \<rparr> = Inr \<lparr> ref_entities = [], ref_relations = [] \<rparr>"
  by (simp add: merge_ref_def merge_ref_entities_def merge_init_def merge_ref_relations_def)

lemma ref_arr: "MergedRefDataset_from_json_file loads_example (Some (str ''[]'')) = Returns \<lparr> ref_entities = [], ref_relations = [] \<rparr>"
  by (simp add: MergedRefDataset_from_json_file_def from_arr merge_empty)

lemma get_pairs_empty: "get_pairs sim [] [] = Inr []"
  by (simp add: get_pairs_def best_of_def pairs_of_def)

lemma BaseScores_empty: "BaseScores [] = Inl ZeroDivisionError"
  by (simp add: BaseScores_def py_div_def)

lemma evaluate_empty:
  "evaluate lower get_pairs BaseScores \<lparr> ref_entities = [], ref_relations = [] \<rparr>
     \<lparr> entities = [], relations = [], equivalences = [] \<rparr> ts as = Inl ZeroDivisionError"
  by (simp add: evaluate_no_prediction get_pairs_empty BaseScores_empty)

text \<open>
  Claim C5, as the code has it. When the JSON parser fails on the predicted text after
  the repair (the text stripped, the code fence removed, the trailing commas removed),
  \<^verbatim>\<open>from_json_file\<close> returns the empty dataset, no entity, no relation and no
  equivalence set, and the evaluation proceeds on it: nothing is redundant and the
  reference relations are paired with no prediction.
\<close>

theorem malformed_json_empty_dataset:
  "loads (remove_last_comma (remove_codeblock (py_strip text))) = None \<longrightarrow>
     from_json_file loads (Some text) = Returns \<lparr> entities = [], relations = [], equivalences = [] \<rparr>
     \<and> evaluate lower pairing scoring ref \<lparr> entities = [], relations = [], equivalences = [] \<rparr> type_sim arg_sim =
         (case pairing (relation_similarity type_sim arg_sim) (ref_relations ref) [] of
            Inl e \<Rightarrow> Inl e
          | Inr pairs \<Rightarrow> (case scoring pairs of Inl e \<Rightarrow> Inl e | Inr scores \<Rightarrow> Inr (scores, pairs)))"
  by (simp add: from_json_file_def evaluate_no_prediction)

theorem malformed_json_empty_dataset_witness:
  "loads_example (remove_last_comma (remove_codeblock (py_strip (str ''{'')))) = None
   \<and> from_json_file loads_example (Some (str ''{''))
       = Returns \<lparr> entities = [], relations = [], equivalences = [] \<rparr>"
  using malformed_json_empty_dataset[of loads_example "str ''{''" ascii_lower get_pairs
      BaseScores "\<lparr> ref_entities = [], ref_relations = [] \<rparr>"
      "standard_type_similarity ascii_lower" "standard_arg_similarity ascii_lower"]
  by (simp add: repair_brace loads_brace)

text \<open>
  Claim C5 as stated covers every text that is not parseable as the expected
  structure. The text \<^verbatim>\<open>{}\<close> is JSON without the member \<^verbatim>\<open>entities\<close>: the parser
  succeeds, the handler of \<^verbatim>\<open>JSONDecodeError\<close> does not apply, and reading
  \<^verbatim>\<open>j['entities']\<close> raises \<^verbatim>\<open>KeyError\<close> instead of yielding the empty dataset.
\<close>

theorem wrong_structure_raises:
  "from_json_file loads_example (Some (str ''{}'')) = Raises KeyError
   \<and> from_json_file loads_example (Some (str ''{}''))
       \<noteq> Returns \<lparr> entities = [], relations = [], equivalences = [] \<rparr>"
  by (simp add: from_json_file_def repair_obj loads_obj Dataset_of_def squash_list_def subscript_def)

lemma no_zde_simps [simp]:
  "no_zde (Returns x)" "no_zde Untyped" "no_zde (Raises e) = (e \<noteq> ZeroDivisionError)"
  by (simp_all add: no_zde_def)

lemma no_zde_bind: "no_zde m \<Longrightarrow> (\<And>x. no_zde (f x)) \<Longrightarrow> no_zde (bind m f)"
  by (cases m) simp_all

lemma no_zde_collect: "(\<And>x. no_zde (f x)) \<Longrightarrow> no_zde (collect f xs)"
  by (induction xs) (simp_all add: no_zde_bind)

lemma no_zde_py_iter: "no_zde (py_iter v)" by (cases v) simp_all
lemma no_zde_as_str: "no_zde (as_str v)" by (cases v) simp_all
lemma no_zde_as_ident: "no_zde (as_ident v)" by (cases v) simp_all
lemma no_zde_hashable_ident: "no_zde (hashable_ident v)" by (cases v) simp_all
lemma no_zde_subscript: "no_zde (subscript v k)"
  by (simp add: subscript_def split: json.splits option.splits)

lemma no_zde_squash_elts: "no_zde (squash_elts ents rels elts)"
  by (induction ents rels elts rule: squash_elts.induct)
    (simp_all add: no_zde_bind no_zde_py_iter)

lemma no_zde_squash_list: "no_zde (squash_list j)"
  by (cases j) (simp_all add: squash_list_def no_zde_bind no_zde_squash_elts split: prod.splits)

lemma no_zde_Entity_init: "no_zde (Entity_init ent)"
  by (simp add: Entity_init_def no_zde_bind no_zde_as_str no_zde_as_ident
      split: json.splits option.splits)

lemma no_zde_Relation_init: "no_zde (Relation_init rel)"
  by (auto simp: Relation_init_def split: json.splits option.splits prod.splits
      intro!: no_zde_bind no_zde_as_str no_zde_subscript)

lemma no_zde_equivalence_set: "no_zde (equivalence_set eq)"
  by (simp add: equivalence_set_def no_zde_bind no_zde_py_iter no_zde_collect no_zde_hashable_ident)

lemma no_zde_Dataset_of: "no_zde (Dataset_of j)"
  unfolding Dataset_of_def
  by (auto simp: Let_def  split: json.splits option.splits
      intro!: no_zde_bind no_zde_squash_list no_zde_subscript no_zde_py_iter no_zde_collect
        no_zde_Entity_init no_zde_Relation_init no_zde_equivalence_set)

lemma no_zde_from_json_file: "no_zde (from_json_file loads file)"
  by (simp add: from_json_file_def no_zde_Dataset_of Let_def split: option.splits)

lemma merge_rels_KeyError: "merge_rels m seen rels = Inl e \<Longrightarrow> e = KeyError"
  by (induction rels arbitrary: seen)
    (auto simp: Relation_key_def MergedRelation_init_def split: sum.splits option.splits if_splits)

lemma no_zde_merge_ref: "no_zde (lift (merge_ref ds))"
  by (auto simp: merge_ref_def merge_ref_relations_def Let_def split: sum.splits
      dest: merge_rels_KeyError)

lemma no_zde_MergedRef: "no_zde (MergedRefDataset_from_json_file loads file)"
  by (simp add: MergedRefDataset_from_json_file_def no_zde_bind no_zde_from_json_file no_zde_merge_ref)

lemma no_zde_main: "no_zde (main lower loads pairing scoring fs ref_fn pred_fn)"
  unfolding main_def
  by (intro no_zde_bind no_zde_MergedRef no_zde_from_json_file)
    (simp split: sum.splits exn.splits)

text \<open>
  Claim C4. The per-document operation \<^verbatim>\<open>main\<close> never raises \<^verbatim>\<open>ZeroDivisionError\<close> to
  its caller, whatever the pairing and the scores do. When both files are read and the
  division by zero occurs, in \<^verbatim>\<open>evaluate\<close> or when \<^verbatim>\<open>f_score\<close> is read, the handler
  runs: the result is \<open>NilRP\<close>, the warning and the score 0.0.
\<close>

theorem main_catches_ZeroDivisionError:
  "main lower loads pairing scoring fs ref_fn pred_fn \<noteq> Raises ZeroDivisionError
   \<and> (MergedRefDataset_from_json_file loads ref_fn = Returns ref_ds
        \<and> from_json_file loads pred_fn = Returns pred_ds
        \<and> (evaluate lower pairing scoring ref_ds pred_ds
               (standard_type_similarity lower) (standard_arg_similarity lower)
              = Inl ZeroDivisionError
            \<or> (\<exists>scores pairs.
                  evaluate lower pairing scoring ref_ds pred_ds
                    (standard_type_similarity lower) (standard_arg_similarity lower)
                   = Inr (scores, pairs)
                  \<and> fs scores = Inl ZeroDivisionError))
      \<longrightarrow> main lower loads pairing scoring fs ref_fn pred_fn = Returns NilRP
          \<and> returned NilRP = 0)"
proof (intro conjI impI)
  show "main lower loads pairing scoring fs ref_fn pred_fn \<noteq> Raises ZeroDivisionError"
    using no_zde_main[of lower loads pairing scoring fs ref_fn pred_fn] by (simp add: no_zde_def)
next
  assume "MergedRefDataset_from_json_file loads ref_fn = Returns ref_ds
        \<and> from_json_file loads pred_fn = Returns pred_ds
        \<and> (evaluate lower pairing scoring ref_ds pred_ds
               (standard_type_similarity lower) (standard_arg_similarity lower)
              = Inl ZeroDivisionError
            \<or> (\<exists>scores pairs.
                  evaluate lower pairing scoring ref_ds pred_ds
                    (standard_type_similarity lower) (standard_arg_similarity lower)
                   = Inr (scores, pairs)
                  \<and> fs scores = Inl ZeroDivisionError))"
  then show "main lower loads pairing scoring fs ref_fn pred_fn = Returns NilRP"
    by (auto simp: main_def)
next
  show "returned NilRP = 0" by simp
qed

theorem main_catches_ZeroDivisionError_witness:
  "MergedRefDataset_from_json_file loads_example (Some (str ''[]''))
     = Returns \<lparr> ref_entities = [], ref_relations = [] \<rparr>
   \<and> from_json_file loads_example (Some (str ''[]''))
     = Returns \<lparr> entities = [], relations = [], equivalences = [] \<rparr>
   \<and> evaluate ascii_lower get_pairs BaseScores \<lparr> ref_entities = [], ref_relations = [] \<rparr>
        \<lparr> entities = [], relations = [], equivalences = [] \<rparr>
        (standard_type_similarity ascii_lower) (standard_arg_similarity ascii_lower)
      = Inl ZeroDivisionError
   \<and> main ascii_lower loads_example get_pairs BaseScores f_score
        (Some (str ''[]'')) (Some (str ''[]'')) = Returns NilRP"
  using main_catches_ZeroDivisionError[of ascii_lower loads_example get_pairs BaseScores f_score
      "Some (str ''[]'')" "Some (str ''[]'')" "\<lparr> ref_entities = [], ref_relations = [] \<rparr>"
      "\<lparr> entities = [], relations = [], equivalences = [] \<rparr>"]
  by (simp add: ref_arr from_arr evaluate_empty)

text \<open>
  Claim C3, as the code has it. A missing reference file ends the run with
  \<^verbatim>\<open>exit(1)\<close>. When the reference dataset is read and canonicalized, a missing predicted
  file ends the run with \<^verbatim>\<open>exit(1)\<close> as well, and a predicted text on which the parser
  raises \<^verbatim>\<open>JSONDecodeError\<close> after the repair is evaluated as the empty prediction:
  \<^verbatim>\<open>main\<close> pairs the reference relations with no prediction and returns the score
  computed from those pairs, or 0.0 when that computation raises
  \<^verbatim>\<open>ZeroDivisionError\<close>; another exception of the computation is raised to the caller.
\<close>

theorem main_missing_or_malformed:
  "main lower loads pairing scoring fs None pred_fn = Raises SystemExit
   \<and> (MergedRefDataset_from_json_file loads ref_fn = Returns ref_ds \<longrightarrow>
        main lower loads pairing scoring fs ref_fn None = Raises SystemExit
        \<and> (loads (remove_last_comma (remove_codeblock (py_strip pred_text))) = None \<longrightarrow>
             main lower loads pairing scoring fs ref_fn (Some pred_text) =
               (case (case pairing
                             (relation_similarity (standard_type_similarity lower)
                                (standard_arg_similarity lower))
                             (ref_relations ref_ds) [] of
                        Inl e \<Rightarrow> Inl e
                      | Inr pairs \<Rightarrow>
                          (case scoring pairs of Inl e \<Rightarrow> Inl e | Inr scores \<Rightarrow> fs scores)) of
                  Inl ZeroDivisionError \<Rightarrow> Returns NilRP
                | Inl e \<Rightarrow> Raises e
                | Inr x \<Rightarrow> Returns (Scored x))))"
proof (intro conjI impI)
  show "main lower loads pairing scoring fs None pred_fn = Raises SystemExit"
    by (simp add: main_def MergedRefDataset_from_json_file_def from_json_file_def)
next
  assume r: "MergedRefDataset_from_json_file loads ref_fn = Returns ref_ds"
  show "main lower loads pairing scoring fs ref_fn None = Raises SystemExit"
    by (simp add: main_def r from_json_file_def)
next
  assume r: "MergedRefDataset_from_json_file loads ref_fn = Returns ref_ds"
    and m: "loads (remove_last_comma (remove_codeblock (py_strip pred_text))) = None"
  have p: "from_json_file loads (Some pred_text)
      = Returns \<lparr> entities = [], relations = [], equivalences = [] \<rparr>"
    using m by (simp add: from_json_file_def)
  show "main lower loads pairing scoring fs ref_fn (Some pred_text) =
               (case (case pairing
                             (relation_similarity (standard_type_similarity lower)
                                (standard_arg_similarity lower))
                             (ref_relations ref_ds) [] of
                        Inl e \<Rightarrow> Inl e
                      | Inr pairs \<Rightarrow>
                          (case scoring pairs of Inl e \<Rightarrow> Inl e | Inr scores \<Rightarrow> fs scores)) of
                  Inl ZeroDivisionError \<Rightarrow> Returns NilRP
                | Inl e \<Rightarrow> Raises e
                | Inr x \<Rightarrow> Returns (Scored x))"
    by (simp add: main_def r p evaluate_no_prediction split: sum.splits)
qed

theorem main_missing_or_malformed_witness:
  "MergedRefDataset_from_json_file loads_example (Some (str ''[]''))
     = Returns \<lparr> ref_entities = [], ref_relations = [] \<rparr>
   \<and> loads_example (remove_last_comma (remove_codeblock (py_strip (str ''{'')))) = None
   \<and> main ascii_lower loads_example get_pairs BaseScores f_score (Some (str ''[]'')) None
       = Raises SystemExit
   \<and> main ascii_lower loads_example get_pairs BaseScores f_score
        (Some (str ''[]'')) (Some (str ''{'')) = Returns NilRP"
  using main_missing_or_malformed[of ascii_lower loads_example get_pairs BaseScores f_score None
      "Some (str ''[]'')" "\<lparr> ref_entities = [], ref_relations = [] \<rparr>" "str ''{''"]
  by (simp add: ref_arr repair_brace loads_brace get_pairs_empty BaseScores_empty)

text \<open>
  Claim C3 as stated has only the absence of the reference file fatal and every other
  triple scored. With the reference file present, a missing predicted file ends the run
  with \<^verbatim>\<open>exit(1)\<close>, and a predicted text \<^verbatim>\<open>{}\<close> raises \<^verbatim>\<open>KeyError\<close> out of \<^verbatim>\<open>main\<close>.
\<close>

theorem missing_prediction_is_fatal:
  "main ascii_lower loads_example get_pairs BaseScores f_score (Some (str ''[]'')) None
     = Raises SystemExit
   \<and> main ascii_lower loads_example get_pairs BaseScores f_score
        (Some (str ''[]'')) (Some (str ''{}'')) = Raises KeyError"
proof -
  have "from_json_file loads_example (Some (str ''{}'')) = Raises KeyError"
    by (simp add: from_json_file_def repair_obj loads_obj Dataset_of_def squash_list_def subscript_def)
  then show ?thesis
    by (simp add: main_def ref_arr from_json_file_def)
qed


section \<open>Redundancy filter\<close>

lemma standard_sim_cases:
  "relation_similarity (standard_type_similarity lower) (standard_arg_similarity lower) r p =
     (if nameless p then Inl IndexError
      else Inr (if perfect lower r p then 1 else 0))"
  by (auto simp: relation_similarity_def standard_type_similarity_def
      standard_arg_similarity_def match_name_def nameless_def perfect_def Let_def
      split: list.splits sum.splits)

lemma scan_pred_set:
  assumes "\<And>p. p \<in> set ps \<Longrightarrow> sim p = Inr (if pf p then 1 else 0)"
  shows "\<exists>out. scan_pred sim found i ps = Inr out
     \<and> set out = {i + k | k. k < length ps \<and> pf (ps ! k) \<and> (found \<or> (\<exists>k' < k. pf (ps ! k')))}"
  using assms
proof (induction ps arbitrary: found i)
  case Nil
  then show ?case by simp
next
  case (Cons p ps)
  have sp: "sim p = Inr (if pf p then 1 else 0)" using Cons.prems by simp
  have rest: "\<And>q. q \<in> set ps \<Longrightarrow> sim q = Inr (if pf q then 1 else 0)" using Cons.prems by simp
  let ?S = "\<lambda>f. {Suc i + k | k. k < length ps \<and> pf (ps ! k) \<and> (f \<or> (\<exists>k' < k. pf (ps ! k')))}"
  let ?T = "{i + k | k. k < length (p # ps) \<and> pf ((p # ps) ! k) \<and> (found \<or> (\<exists>k' < k. pf ((p # ps) ! k')))}"
  have T: "?T = (if pf p \<and> found then {i} else {}) \<union> ?S (found \<or> pf p)"
  proof (rule set_eqI, rule iffI)
    fix x assume "x \<in> ?T"
    then obtain k where k: "x = i + k" "k < length (p # ps)" "pf ((p # ps) ! k)"
      "found \<or> (\<exists>k' < k. pf ((p # ps) ! k'))" by blast
    show "x \<in> (if pf p \<and> found then {i} else {}) \<union> ?S (found \<or> pf p)"
    proof (cases k)
      case 0
      then show ?thesis using k by auto
    next
      case (Suc n)
      have "found \<or> pf p \<or> (\<exists>k' < n. pf (ps ! k'))"
      proof -
        { assume "\<not> found"
          then obtain k' where k': "k' < k" "pf ((p # ps) ! k')" using k(4) by blast
          have "pf p \<or> (\<exists>k'' < n. pf (ps ! k''))"
          proof (cases k')
            case 0 then show ?thesis using k' by simp
          next
            case (Suc m) then show ?thesis using k' \<open>k = Suc n\<close> by auto
          qed }
        then show ?thesis by blast
      qed
      then have "x \<in> ?S (found \<or> pf p)" using k Suc by auto
      then show ?thesis by blast
    qed
  next
    fix x assume a: "x \<in> (if pf p \<and> found then {i} else {}) \<union> ?S (found \<or> pf p)"
    show "x \<in> ?T"
    proof (cases "x \<in> ?S (found \<or> pf p)")
      case True
      then obtain k where k: "x = Suc i + k" "k < length ps" "pf (ps ! k)"
        "(found \<or> pf p) \<or> (\<exists>k' < k. pf (ps ! k'))" by blast
      have "found \<or> (\<exists>k' < Suc k. pf ((p # ps) ! k'))"
      proof -
        { assume nf: "\<not> found"
          have "\<exists>k' < Suc k. pf ((p # ps) ! k')"
          proof (cases "pf p")
            case True then show ?thesis by (intro exI[of _ 0]) simp
          next
            case False
            then obtain k' where "k' < k" "pf (ps ! k')" using k(4) nf by blast
            then show ?thesis by (intro exI[of _ "Suc k'"]) simp
          qed }
        then show ?thesis by blast
      qed
      then show ?thesis using k by (intro CollectI exI[of _ "Suc k"]) simp
    next
      case False
      then have "x = i" "pf p" "found" using a by (auto split: if_splits)
      then show ?thesis by (intro CollectI exI[of _ 0]) simp
    qed
  qed
  show ?case
  proof (cases "pf p")
    case True
    obtain out where out: "scan_pred sim True (Suc i) ps = Inr out" "set out = ?S True"
      using Cons.IH[OF rest, of True "Suc i"] by blast
    show ?thesis
    proof (cases found)
      case True
      then show ?thesis using \<open>pf p\<close> sp out T by simp
    next
      case False
      then show ?thesis using \<open>pf p\<close> sp out T by simp
    qed
  next
    case False
    obtain out where out: "scan_pred sim found (Suc i) ps = Inr out" "set out = ?S found"
      using Cons.IH[OF rest, of found "Suc i"] by blast
    show ?thesis using False sp out T by simp
  qed
qed

lemma scan_pred_nameless:
  assumes "list_ex nameless ps"
  shows "scan_pred (relation_similarity (standard_type_similarity lower)
            (standard_arg_similarity lower) r) found i ps = Inl IndexError"
  using assms
  by (induction ps arbitrary: found i) (auto simp: standard_sim_cases)

lemma pred_redundant_set:
  assumes "\<not> list_ex nameless pred"
  shows "\<exists>out. pred_redundant lower ref pred = Inr out
     \<and> set out = {j. j < length pred \<and> redundant_at lower ref pred j}"
proof (induction ref)
  case Nil
  then show ?case by (simp add: redundant_at_def)
next
  case (Cons r ref)
  let ?sim = "relation_similarity (standard_type_similarity lower) (standard_arg_similarity lower) r"
  have "\<And>p. p \<in> set pred \<Longrightarrow> ?sim p = Inr (if perfect lower r p then 1 else 0)"
    using assms by (auto simp: standard_sim_cases list_ex_iff)
  from scan_pred_set[of pred ?sim "perfect lower r" False 0, OF this]
  obtain o1 where o1: "scan_pred ?sim False 0 pred = Inr o1"
    "set o1 = {k. k < length pred \<and> perfect lower r (pred ! k) \<and> (\<exists>k' < k. perfect lower r (pred ! k'))}"
    by auto
  obtain o2 where o2: "pred_redundant lower ref pred = Inr o2"
    "set o2 = {j. j < length pred \<and> redundant_at lower ref pred j}"
    using Cons.IH by blast
  have "set (o1 @ o2) = {j. j < length pred \<and> redundant_at lower (r # ref) pred j}"
    unfolding set_append o1 o2 by (auto simp: redundant_at_def list_ex_iff)
  then show ?case using o1(1) o2(1) by simp
qed

lemma not_redundant_nth:
  "not_redundant out pred = map (nth pred) (filter (\<lambda>j. j \<notin> set out) [0..<length pred])"
proof -
  have "zip [0..<length pred] pred = map (\<lambda>j. (j, pred ! j)) [0..<length pred]"
    by (rule nth_equalityI) simp_all
  then have "enumerate 0 pred = map (\<lambda>j. (j, pred ! j)) [0..<length pred]"
    by (simp add: enumerate_eq_zip)
  then show ?thesis
    by (simp add: not_redundant_def filter_map comp_def)
qed

lemma kept_eq:
  assumes "set out = {j. j < length pred \<and> redundant_at lower ref pred j}"
  shows "not_redundant out pred = kept lower ref pred"
proof -
  have "filter (\<lambda>j. j \<notin> set out) [0..<length pred]
      = filter (\<lambda>j. \<not> redundant_at lower ref pred j) [0..<length pred]"
    by (rule filter_cong) (auto simp: assms)
  then show ?thesis by (simp add: not_redundant_nth kept_def)
qed

lemma ex_perfect: "perfect ascii_lower ex_rel ex_pred"
  by (simp add: perfect_def relation_similarity_def standard_type_similarity_def
      standard_arg_similarity_def match_type_def normalize_type_def TYPEMAP_def match_name_def
      ex_rel_def ex_pred_def ex_source_def ex_target_def str_def ascii_lower_def isspace_def
      QUOTES_def Let_def)

lemma ex_kept: "kept ascii_lower [ex_rel] [ex_pred, ex_pred] = [ex_pred]"
  by (simp add: kept_def redundant_at_def ex_perfect upt_rec[of 0] upt_rec[of 1] upt_rec[of 2])

lemma ex_sim: "relation_similarity (standard_type_similarity ascii_lower)
        (standard_arg_similarity ascii_lower) ex_rel ex_pred = Inr 1"
  using ex_perfect by (simp add: perfect_def)

lemma ex_pairs: "get_pairs (relation_similarity (standard_type_similarity ascii_lower)
        (standard_arg_similarity ascii_lower)) [ex_rel] [ex_pred] = Inr [Pair (Some 0) (Some 0) 1]"
  by (simp add: get_pairs_def ex_sim best_of_def total_def pairs_of_def)

lemma ex_scores: "BaseScores [Pair (Some 0) (Some 0) 1] = Inr \<lparr> precision = 1, recall = 1, f1 = 1 \<rparr>"
  by (simp add: BaseScores_def true_positive_def py_div_def Let_def)

text \<open>
  Claim C8. Whatever similarity functions the evaluation is called with, the
  predictions handed to the pairing are those that are not redundant under the strict
  type and strict argument similarity: a prediction is dropped exactly when, for some
  reference relation, it scores 1 and an earlier prediction scores 1 as well, so the
  first one stays and every later one is left out of the pairing. (With a reference
  relation and a prediction whose source or target is empty, the filter raises
  \<^verbatim>\<open>IndexError\<close>.)
\<close>

theorem redundant_excluded_before_pairing:
  "evaluate lower pairing scoring ref pred type_sim arg_sim =
     (if ref_relations ref \<noteq> [] \<and> list_ex nameless (relations pred) then Inl IndexError
      else
        (case pairing (relation_similarity type_sim arg_sim) (ref_relations ref)
                (kept lower (ref_relations ref) (relations pred)) of
           Inl e \<Rightarrow> Inl e
         | Inr pairs \<Rightarrow>
             (case scoring pairs of Inl e \<Rightarrow> Inl e | Inr scores \<Rightarrow> Inr (scores, pairs))))"
proof (cases "list_ex nameless (relations pred)")
  case True
  show ?thesis
  proof (cases "ref_relations ref")
    case Nil
    have "kept lower [] (relations pred) = relations pred"
      by (simp add: kept_def redundant_at_def map_nth)
    then show ?thesis using Nil
      by (simp add: evaluate_def not_redundant_nth map_nth)
  next
    case (Cons r rs)
    then show ?thesis using True by (simp add: evaluate_def scan_pred_nameless)
  qed
next
  case False
  obtain out where out: "pred_redundant lower (ref_relations ref) (relations pred) = Inr out"
    "set out = {j. j < length (relations pred) \<and> redundant_at lower (ref_relations ref) (relations pred) j}"
    using pred_redundant_set[OF False] by blast
  show ?thesis using False out(1) kept_eq[OF out(2)]
    by (simp add: evaluate_def)
qed

theorem redundant_excluded_before_pairing_witness: "evaluate ascii_lower get_pairs BaseScores
     \<lparr> ref_entities = [ex_source, ex_target], ref_relations = [ex_rel] \<rparr>
     \<lparr> entities = [], relations = [ex_pred, ex_pred], equivalences = [] \<rparr>
     (standard_type_similarity ascii_lower) (standard_arg_similarity ascii_lower)
   = Inr (\<lparr> precision = 1, recall = 1, f1 = 1 \<rparr>, [Pair (Some 0) (Some 0) 1])"
proof -
  have n: "\<not> list_ex nameless [ex_pred, ex_pred]"
    by (simp add: nameless_def ex_pred_def str_def)
  show ?thesis
    using redundant_excluded_before_pairing[of ascii_lower get_pairs BaseScores
      "\<lparr> ref_entities = [ex_source, ex_target], ref_relations = [ex_rel] \<rparr>"
      "\<lparr> entities = [], relations = [ex_pred, ex_pred], equivalences = [] \<rparr>"
      "standard_type_similarity ascii_lower" "standard_arg_similarity ascii_lower"] n
    by (simp add: ex_kept ex_pairs ex_scores)
qed


section \<open>Reference relations\<close>

lemma known_key: "known m r \<Longrightarrow> Relation_key m r = Inr (raw_key m r)"
  by (auto simp: known_def Relation_key_def raw_key_def)

lemma known_init: "known m r \<Longrightarrow> MergedRelation_init m r = Inr (merged_of m r)"
  by (auto simp: known_def MergedRelation_init_def merged_of_def)

lemma merge_rels_first:
  assumes "list_all (known m) rels"
  shows "\<exists>out. merge_rels m seen rels = Inr (map (merged_of m) out)
     \<and> subseq out rels
     \<and> distinct (map (raw_key m) out)
     \<and> set (map (raw_key m) out) = set (map (raw_key m) rels) - seen
     \<and> list_all (\<lambda>x. find (\<lambda>r. raw_key m r = raw_key m x) rels = Some x) out"
  using assms
proof (induction rels arbitrary: seen)
  case Nil
  then show ?case by simp
next
  case (Cons r rs)
  have kr: "known m r" and krs: "list_all (known m) rs" using Cons.prems by simp_all
  show ?case
  proof (cases "raw_key m r \<in> seen")
    case True
    obtain out where out: "merge_rels m seen rs = Inr (map (merged_of m) out)"
      "subseq out rs" "distinct (map (raw_key m) out)"
      "set (map (raw_key m) out) = set (map (raw_key m) rs) - seen"
      "list_all (\<lambda>x. find (\<lambda>r. raw_key m r = raw_key m x) rs = Some x) out"
      using Cons.IH[OF krs, of seen] by blast
    have ne: "\<And>x. x \<in> set out \<Longrightarrow> raw_key m r \<noteq> raw_key m x"
      using out(4) True by auto
    have "list_all (\<lambda>x. find (\<lambda>r. raw_key m r = raw_key m x) (r # rs) = Some x) out"
      using out(5) ne by (auto simp: list_all_iff)
    moreover have "set (map (raw_key m) out) = set (map (raw_key m) (r # rs)) - seen"
      using out(4) True by auto
    moreover have "merge_rels m seen (r # rs) = Inr (map (merged_of m) out)"
      using True out(1) by (simp add: known_key[OF kr])
    ultimately show ?thesis using out(2,3) by (intro exI[of _ out]) (simp add: list_emb_Cons)
  next
    case False
    obtain out where out: "merge_rels m (insert (raw_key m r) seen) rs = Inr (map (merged_of m) out)"
      "subseq out rs" "distinct (map (raw_key m) out)"
      "set (map (raw_key m) out) = set (map (raw_key m) rs) - insert (raw_key m r) seen"
      "list_all (\<lambda>x. find (\<lambda>r. raw_key m r = raw_key m x) rs = Some x) out"
      using Cons.IH[OF krs, of "insert (raw_key m r) seen"] by blast
    have ne: "\<And>x. x \<in> set out \<Longrightarrow> raw_key m r \<noteq> raw_key m x"
      using out(4) by auto
    have "list_all (\<lambda>x. find (\<lambda>r. raw_key m r = raw_key m x) (r # rs) = Some x) (r # out)"
      using out(5) ne by (auto simp: list_all_iff)
    moreover have "set (map (raw_key m) (r # out)) = set (map (raw_key m) (r # rs)) - seen"
      using out(4) False by auto
    moreover have "merge_rels m seen (r # rs) = Inr (map (merged_of m) (r # out))"
      using False out(1) by (simp add: known_key[OF kr] known_init[OF kr])
    moreover have "distinct (map (raw_key m) (r # out))"
      using out(3,4) by auto
    ultimately show ?thesis using out(2) by (intro exI[of _ "r # out"]) simp
  qed
qed

lemma ex_entities: "merge_ref_entities (ex_dataset rels) = [ex_source, ex_target]"
  by (simp add: merge_ref_entities_def ex_dataset_def merge_init_def merge_step_def
      ex_e1_def ex_e2_def key_def MergedEntity_init_def register_eq_def Let_def
      ex_source_def ex_target_def str_def)

lemma ex_map1: "build_ent_id_map [ex_source, ex_target] (Some (str ''e1'')) = Some ex_source"
  by (simp add: build_ent_id_map_def ex_source_def ex_target_def str_def)
lemma ex_map2: "build_ent_id_map [ex_source, ex_target] (Some (str ''e2'')) = Some ex_target"
  by (simp add: build_ent_id_map_def ex_source_def ex_target_def str_def)

text \<open>
  Claim C2, as the code has it. The key of a reference relation is its type as written,
  with the key of the merged entity of its source and of its target. When every
  relation names entities of the id index, \<^verbatim>\<open>_merge_ref_relations\<close> returns the merged
  relations of a subsequence of the raw relations that has every key once and in which
  each relation is the first of the raw relations with its key: two raw relations of
  the same type string whose ids map to the same merged entities collapse into one.
\<close>

theorem merge_ref_relations_first_per_raw_key:
  assumes "list_all (known (build_ent_id_map ents)) (relations self)"
  shows "\<exists>out. merge_ref_relations self ents = Inr (map (merged_of (build_ent_id_map ents)) out)
     \<and> subseq out (relations self)
     \<and> distinct (map (raw_key (build_ent_id_map ents)) out)
     \<and> set (map (raw_key (build_ent_id_map ents)) out)
         = set (map (raw_key (build_ent_id_map ents)) (relations self))
     \<and> list_all (\<lambda>x. find (\<lambda>r. raw_key (build_ent_id_map ents) r
                                  = raw_key (build_ent_id_map ents) x) (relations self) = Some x) out
     \<and> list_all (\<lambda>r. Relation_key (build_ent_id_map ents) r
          = Inr (rel_type r, me_key (the (build_ent_id_map ents (Some (source r)))),
                 me_key (the (build_ent_id_map ents (Some (target r)))))) (relations self)"
proof -
  have "list_all (\<lambda>r. Relation_key (build_ent_id_map ents) r
          = Inr (rel_type r, me_key (the (build_ent_id_map ents (Some (source r)))),
                 me_key (the (build_ent_id_map ents (Some (target r)))))) (relations self)"
    using assms by (auto simp: list_all_iff known_key raw_key_def)
  then show ?thesis
    using merge_rels_first[OF assms, of "{}"] by (auto simp: merge_ref_relations_def)
qed

theorem merge_ref_relations_first_per_raw_key_witness:
  "list_all (known (build_ent_id_map [ex_source, ex_target])) [ex_r ''Cause'', ex_r ''Cause'']
   \<and> merge_ref_relations (ex_dataset [ex_r ''Cause'', ex_r ''Cause'']) [ex_source, ex_target]
      = Inr [\<lparr> mr_type = str ''Cause'', mr_source = ex_source, mr_target = ex_target \<rparr>]"
proof -
  have k: "list_all (known (build_ent_id_map [ex_source, ex_target]))
      (relations (ex_dataset [ex_r ''Cause'', ex_r ''Cause'']))"
    by (simp add: known_def ex_dataset_def ex_r_def ex_map1 ex_map2)
  obtain out where out:
    "merge_ref_relations (ex_dataset [ex_r ''Cause'', ex_r ''Cause'']) [ex_source, ex_target]
       = Inr (map (merged_of (build_ent_id_map [ex_source, ex_target])) out)"
    "subseq out (relations (ex_dataset [ex_r ''Cause'', ex_r ''Cause'']))"
    "distinct (map (raw_key (build_ent_id_map [ex_source, ex_target])) out)"
    "set (map (raw_key (build_ent_id_map [ex_source, ex_target])) out)
         = set (map (raw_key (build_ent_id_map [ex_source, ex_target])) (relations (ex_dataset [ex_r ''Cause'', ex_r ''Cause''])))"
    using merge_ref_relations_first_per_raw_key[OF k] by blast
  have "merge_ref_relations (ex_dataset [ex_r ''Cause'', ex_r ''Cause'']) [ex_source, ex_target]
      = Inr [\<lparr> mr_type = str ''Cause'', mr_source = ex_source, mr_target = ex_target \<rparr>]"
    by (simp add: merge_ref_relations_def ex_dataset_def ex_r_def Relation_key_def
        MergedRelation_init_def ex_map1 ex_map2)
  then show ?thesis using k out by (simp add: ex_dataset_def)
qed

text \<open>
  Claim C2 as stated has the type normalized in the key. The types \<^verbatim>\<open>Cause\<close> and
  \<^verbatim>\<open>Causes\<close> normalize to the same label, and two reference relations with these types
  and the same source and target ids stay two merged relations.
\<close>

theorem synonym_types_not_collapsed:
  "normalize_type ascii_lower (str ''Cause'') = normalize_type ascii_lower (str ''Causes'')
   \<and> source (ex_r ''Cause'') = source (ex_r ''Causes'')
   \<and> target (ex_r ''Cause'') = target (ex_r ''Causes'')
   \<and> merge_ref (ex_dataset [ex_r ''Cause'', ex_r ''Causes''])
       = Inr \<lparr> ref_entities = [ex_source, ex_target],
              ref_relations =
                [\<lparr> mr_type = str ''Cause'', mr_source = ex_source, mr_target = ex_target \<rparr>,
                 \<lparr> mr_type = str ''Causes'', mr_source = ex_source, mr_target = ex_target \<rparr>] \<rparr>"
proof -
  have n: "normalize_type ascii_lower (str ''Cause'') = normalize_type ascii_lower (str ''Causes'')"
    by (simp add: normalize_type_def TYPEMAP_def str_def)
  have ne: "str ''Cause'' \<noteq> str ''Causes''" by (simp add: str_def)
  have "merge_ref_relations (ex_dataset [ex_r ''Cause'', ex_r ''Causes'']) [ex_source, ex_target]
     = Inr [\<lparr> mr_type = str ''Cause'', mr_source = ex_source, mr_target = ex_target \<rparr>,
                 \<lparr> mr_type = str ''Causes'', mr_source = ex_source, mr_target = ex_target \<rparr>]"
    using ne
    by (simp add: merge_ref_relations_def ex_dataset_def ex_r_def Relation_key_def
        MergedRelation_init_def ex_map1 ex_map2)
  then show ?thesis using n by (simp add: merge_ref_def ex_entities ex_r_def)
qed


section \<open>Reference entities\<close>

lemma add_fields [simp]:
  "me_key (add c e) = me_key c" "me_type (add c e) = me_type c"
  "me_normalization_type (add c e) = me_normalization_type c"
  "me_normalization_value (add c e) = me_normalization_value c"
  "set (ids (add c e)) = insert (id' e) (set (ids c))"
  "set (names (add c e)) = insert (name e) (set (names c))"
  by (simp_all add: add_def)

lemma same_identity_add [simp]: "same_identity (add c e') e = same_identity c e"
  by (simp add: same_identity_def)

lemma init_fields [simp]:
  "set (ids (MergedEntity_init e)) = {id' e}" "same_identity (MergedEntity_init e) e"
  "me_key (MergedEntity_init e) = key e"
  by (simp_all add: MergedEntity_init_def same_identity_def)

lemma register_eq_inner: "fold (\<lambda>j m. m(j \<mapsto> n)) eq m i = (if i \<in> set eq then Some n else m i)"
  by (induction eq arbitrary: m) auto

lemma register_eq_lookup:
  "register_eq eqs i n m j =
     (if \<exists>q \<in> set eqs. i \<in> set q \<and> j \<in> set q then Some n else m j)"
  unfolding register_eq_def
  by (induction eqs arbitrary: m) (auto simp: register_eq_inner)

lemma merge_step_cases:
  obtains (joined) k where
      "ent_map st (key e) = Some k \<or> (ent_map st (key e) = None \<and> eqid_map st (id' e) = Some k)"
      "merge_step eqs e st = st\<lparr> clusters := (clusters st)[k := add (clusters st ! k) e] \<rparr>"
  | (created)
      "ent_map st (key e) = None" "eqid_map st (id' e) = None"
      "merge_step eqs e st =
         \<lparr> clusters = clusters st @ [MergedEntity_init e],
           ent_map = (ent_map st)(key e \<mapsto> length (clusters st)),
           eqid_map = register_eq eqs (id' e) (length (clusters st)) (eqid_map st) \<rparr>"
  by (cases "ent_map st (key e)"; cases "eqid_map st (id' e)")
     (auto simp: merge_step_def Let_def)

lemma maps_wf_step: "maps_wf st \<Longrightarrow> maps_wf (merge_step eqs e st)"
proof (cases rule: merge_step_cases[of st e eqs])
  case (joined k)
  assume "maps_wf st"
  then show ?thesis unfolding joined(2) by (simp add: maps_wf_def)
next
  case created
  assume "maps_wf st"
  then show ?thesis unfolding created(3)
    by (auto simp: maps_wf_def register_eq_lookup less_Suc_eq split: if_splits)
qed

lemma find_append_Some: "find P xs = Some x \<Longrightarrow> find P (xs @ ys) = Some x"
  by (induction xs) (auto split: if_splits)

lemma find_append_None: "find P xs = None \<Longrightarrow> find P (xs @ ys) = find P ys"
  by (induction xs) (auto split: if_splits)

lemma first_member_grow:
  assumes "first_member xs c = Some e0" "id' e \<notin> id' ` set xs"
  shows "first_member (xs @ [e]) (add c e) = Some e0"
proof -
  have ne: "\<And>x. x \<in> set xs \<Longrightarrow> id' x \<noteq> id' e" using assms(2) by (metis imageI)
  have "find (\<lambda>x. id' x \<in> set (ids (add c e))) xs = find (\<lambda>x. id' x \<in> set (ids c)) xs"
    by (intro find_cong) (auto simp: ne)
  then show ?thesis using assms(1) by (simp add: first_member_def find_append_Some)
qed

lemma first_member_keep:
  assumes "first_member xs c = Some e0"
  shows "first_member (xs @ [e]) c = Some e0"
  using assms by (simp add: first_member_def find_append_Some)

lemma first_member_new:
  assumes "id' e \<notin> id' ` set xs"
  shows "first_member (xs @ [e]) (MergedEntity_init e) = Some e"
proof -
  have ne: "\<And>x. x \<in> set xs \<Longrightarrow> id' x \<noteq> id' e" using assms by (metis imageI)
  have "find (\<lambda>x. id' x \<in> set (ids (MergedEntity_init e))) xs = None"
    by (auto simp: find_None_iff ne)
  then show ?thesis by (simp add: first_member_def find_append_None)
qed

lemma cluster_inv_step:
  assumes inv: "cluster_inv xs (clusters st)" and wf: "maps_wf st"
    and new: "id' e \<notin> id' ` set xs"
  shows "cluster_inv (xs @ [e]) (clusters (merge_step eqs e st))"
proof (cases rule: merge_step_cases[of st e eqs])
  case (joined k)
  let ?cs = "clusters st"
  have k: "k < length ?cs" using joined(1) wf unfolding maps_wf_def by blast
  have sub: "\<And>j. j < length ?cs \<Longrightarrow> set (ids (?cs ! j)) \<subseteq> id' ` set xs"
    using inv by (simp add: cluster_inv_def)
  have fm: "\<And>j. j < length ?cs \<Longrightarrow>
      \<exists>e0. first_member xs (?cs ! j) = Some e0 \<and> same_identity (?cs ! j) e0"
    using inv by (simp add: cluster_inv_def)
  have cov: "\<And>x. x \<in> set xs \<Longrightarrow> \<exists>j < length ?cs. id' x \<in> set (ids (?cs ! j))"
    using inv by (simp add: cluster_inv_def)
  have dis: "\<And>j j'. j < length ?cs \<Longrightarrow> j' < length ?cs \<Longrightarrow> j \<noteq> j' \<Longrightarrow>
      set (ids (?cs ! j)) \<inter> set (ids (?cs ! j')) = {}"
    using inv by (simp add: cluster_inv_def)
  let ?cs' = "?cs[k := add (?cs ! k) e]"
  have nth: "\<And>j. j < length ?cs \<Longrightarrow> ?cs' ! j = (if j = k then add (?cs ! k) e else ?cs ! j)"
    by (simp add: nth_list_update)
  have c1: "\<forall>j < length ?cs'. set (ids (?cs' ! j)) \<subseteq> id' ` set (xs @ [e])"
    using sub by (auto simp: nth)
  have c2: "\<forall>j < length ?cs'. \<exists>e0. first_member (xs @ [e]) (?cs' ! j) = Some e0
      \<and> same_identity (?cs' ! j) e0"
  proof (intro allI impI)
    fix j assume "j < length ?cs'"
    then have j: "j < length ?cs" by simp
    obtain e0 where e0: "first_member xs (?cs ! j) = Some e0" "same_identity (?cs ! j) e0"
      using fm[OF j] by blast
    show "\<exists>e0. first_member (xs @ [e]) (?cs' ! j) = Some e0 \<and> same_identity (?cs' ! j) e0"
    proof (cases "j = k")
      case True
      then show ?thesis using e0 first_member_grow[OF _ new] j by (auto simp: nth)
    next
      case False
      then show ?thesis using e0 first_member_keep j by (auto simp: nth)
    qed
  qed
  have c3: "\<forall>x \<in> set (xs @ [e]). \<exists>j < length ?cs'. id' x \<in> set (ids (?cs' ! j))"
  proof
    fix x assume "x \<in> set (xs @ [e])"
    then consider "x \<in> set xs" | "x = e" by auto
    then show "\<exists>j < length ?cs'. id' x \<in> set (ids (?cs' ! j))"
    proof cases
      case 1
      then obtain j where "j < length ?cs" "id' x \<in> set (ids (?cs ! j))" using cov by blast
      then show ?thesis by (intro exI[of _ j]) (auto simp: nth)
    next
      case 2
      then show ?thesis using k by (intro exI[of _ k]) (auto simp: nth)
    qed
  qed
  have c4: "\<forall>j < length ?cs'. \<forall>j' < length ?cs'. j \<noteq> j' \<longrightarrow>
      set (ids (?cs' ! j)) \<inter> set (ids (?cs' ! j')) = {}"
  proof (intro allI impI)
    fix j j' assume a: "j < length ?cs'" "j' < length ?cs'" "j \<noteq> j'"
    then have jj: "j < length ?cs" "j' < length ?cs" by simp_all
    have d: "set (ids (?cs ! j)) \<inter> set (ids (?cs ! j')) = {}" using dis[OF jj a(3)] .
    have n1: "id' e \<notin> set (ids (?cs ! j))" using sub[OF jj(1)] new by auto
    have n2: "id' e \<notin> set (ids (?cs ! j'))" using sub[OF jj(2)] new by auto
    show "set (ids (?cs' ! j)) \<inter> set (ids (?cs' ! j')) = {}"
      using d n1 n2 a(3) jj by (auto simp: nth)
  qed
  show ?thesis unfolding joined(2) cluster_inv_def using c1 c2 c3 c4 by simp
next
  case created
  let ?cs = "clusters st"
  have sub: "\<And>j. j < length ?cs \<Longrightarrow> set (ids (?cs ! j)) \<subseteq> id' ` set xs"
    using inv by (simp add: cluster_inv_def)
  have fm: "\<And>j. j < length ?cs \<Longrightarrow>
      \<exists>e0. first_member xs (?cs ! j) = Some e0 \<and> same_identity (?cs ! j) e0"
    using inv by (simp add: cluster_inv_def)
  have cov: "\<And>x. x \<in> set xs \<Longrightarrow> \<exists>j < length ?cs. id' x \<in> set (ids (?cs ! j))"
    using inv by (simp add: cluster_inv_def)
  have dis: "\<And>j j'. j < length ?cs \<Longrightarrow> j' < length ?cs \<Longrightarrow> j \<noteq> j' \<Longrightarrow>
      set (ids (?cs ! j)) \<inter> set (ids (?cs ! j')) = {}"
    using inv by (simp add: cluster_inv_def)
  let ?cs' = "?cs @ [MergedEntity_init e]"
  have nth: "\<And>j. j < length ?cs' \<Longrightarrow>
      ?cs' ! j = (if j < length ?cs then ?cs ! j else MergedEntity_init e)"
    by (auto simp: nth_append less_Suc_eq)
  have c1: "\<forall>j < length ?cs'. set (ids (?cs' ! j)) \<subseteq> id' ` set (xs @ [e])"
    using sub by (auto simp: nth_append)
  have c2: "\<forall>j < length ?cs'. \<exists>e0. first_member (xs @ [e]) (?cs' ! j) = Some e0
      \<and> same_identity (?cs' ! j) e0"
  proof (intro allI impI)
    fix j assume j: "j < length ?cs'"
    show "\<exists>e0. first_member (xs @ [e]) (?cs' ! j) = Some e0 \<and> same_identity (?cs' ! j) e0"
    proof (cases "j < length ?cs")
      case True
      then obtain e0 where "first_member xs (?cs ! j) = Some e0" "same_identity (?cs ! j) e0"
        using fm by blast
      then show ?thesis using True first_member_keep by (auto simp: nth_append)
    next
      case False
      then show ?thesis using first_member_new[OF new] j by (auto simp: nth_append)
    qed
  qed
  have c3: "\<forall>x \<in> set (xs @ [e]). \<exists>j < length ?cs'. id' x \<in> set (ids (?cs' ! j))"
  proof
    fix x assume "x \<in> set (xs @ [e])"
    then consider "x \<in> set xs" | "x = e" by auto
    then show "\<exists>j < length ?cs'. id' x \<in> set (ids (?cs' ! j))"
    proof cases
      case 1
      then obtain j where "j < length ?cs" "id' x \<in> set (ids (?cs ! j))" using cov by blast
      then show ?thesis by (intro exI[of _ j]) (auto simp: nth_append)
    next
      case 2
      then show ?thesis by (intro exI[of _ "length ?cs"]) simp
    qed
  qed
  have c4: "\<forall>j < length ?cs'. \<forall>j' < length ?cs'. j \<noteq> j' \<longrightarrow>
      set (ids (?cs' ! j)) \<inter> set (ids (?cs' ! j')) = {}"
  proof (intro allI impI)
    fix j j' assume a: "j < length ?cs'" "j' < length ?cs'" "j \<noteq> j'"
    have n: "\<And>i. i < length ?cs \<Longrightarrow> id' e \<notin> set (ids (?cs ! i))" using sub new by auto
    show "set (ids (?cs' ! j)) \<inter> set (ids (?cs' ! j')) = {}"
      using a dis n by (auto simp: nth_append less_Suc_eq split: if_splits)
  qed
  show ?thesis unfolding created(3) cluster_inv_def using c1 c2 c3 c4 by simp
qed

lemma cluster_inv_fold:
  assumes "distinct (map id' xs)"
  shows "cluster_inv xs (clusters (fold (merge_step eqs) xs merge_init))
     \<and> maps_wf (fold (merge_step eqs) xs merge_init)"
  using assms
proof (induction xs rule: rev_induct)
  case Nil
  show ?case by (simp add: cluster_inv_def maps_wf_def merge_init_def)
next
  case (snoc e xs)
  then have d: "distinct (map id' xs)" and new: "id' e \<notin> id' ` set xs" by auto
  from snoc.IH[OF d] show ?case
    by (simp add: cluster_inv_step[OF _ _ new] maps_wf_step)
qed

lemma cluster_inv_cover:
  "cluster_inv xs cs \<Longrightarrow> e \<in> set xs \<Longrightarrow> \<exists>k < length cs. id' e \<in> set (ids (cs ! k))"
  by (simp add: cluster_inv_def)

lemma cluster_inv_disjoint:
  "cluster_inv xs cs \<Longrightarrow> k < length cs \<Longrightarrow> k' < length cs \<Longrightarrow> k \<noteq> k'
     \<Longrightarrow> set (ids (cs ! k)) \<inter> set (ids (cs ! k')) = {}"
  by (simp add: cluster_inv_def)

lemma cluster_inv_first:
  "cluster_inv xs cs \<Longrightarrow> k < length cs
     \<Longrightarrow> \<exists>e. first_member xs (cs ! k) = Some e \<and> same_identity (cs ! k) e"
  by (simp add: cluster_inv_def)

lemma ent_map_step:
  "K \<noteq> key e \<Longrightarrow> ent_map (merge_step eqs e st) K = ent_map st K"
  by (cases rule: merge_step_cases[of st e eqs]) simp_all

lemma ent_map_fold:
  "K \<notin> key ` set ys \<Longrightarrow> ent_map (fold (merge_step eqs) ys st) K = ent_map st K"
  by (induction ys arbitrary: st) (simp_all add: ent_map_step)

lemma eqid_map_step:
  assumes "\<forall>q \<in> set eqs. id' e \<in> set q \<longrightarrow> i \<notin> set q"
  shows "eqid_map (merge_step eqs e st) i = eqid_map st i"
  using assms
  by (cases rule: merge_step_cases[of st e eqs]) (auto simp: register_eq_lookup)

lemma eqid_map_fold:
  assumes "\<forall>x \<in> set ys. \<forall>q \<in> set eqs. id' x \<in> set q \<longrightarrow> i \<notin> set q"
  shows "eqid_map (fold (merge_step eqs) ys st) i = eqid_map st i"
  using assms
  by (induction ys arbitrary: st) (simp_all add: eqid_map_step)

lemma holds_step: "holds st k i K \<Longrightarrow> holds (merge_step eqs e st) k i K"
proof (cases rule: merge_step_cases[of st e eqs])
  case (joined k')
  assume "holds st k i K"
  then show ?thesis unfolding joined(2) by (cases "k' = k") (auto simp: holds_def)
next
  case created
  assume "holds st k i K"
  then show ?thesis unfolding created(3) by (auto simp: holds_def nth_append)
qed

lemma holds_fold: "holds st k i K \<Longrightarrow> holds (fold (merge_step eqs) ys st) k i K"
  by (induction ys arbitrary: st) (simp_all add: holds_step)

lemmas ex_entity_defs = ex_e1_def ex_e2_def ex_e3_def ex_e4_def ex_e5_def ex_e6_def

lemma ex_bridged_ids:
  "map ids (merge_ref_entities ex_bridged)
     = [[Some (str ''e4''), Some (str ''e3''), Some (str ''e1'')], [Some (str ''e2'')]]"
  by (simp add: merge_ref_entities_def ex_bridged_def merge_init_def merge_step_def
      ex_entity_defs key_def MergedEntity_init_def add_def register_eq_def Let_def str_def)

lemma ex_unbridged_ids:
  "map ids (merge_ref_entities ex_unbridged)
     = [[Some (str ''e1'')], [Some (str ''e6''), Some (str ''e5'')]]"
  by (simp add: merge_ref_entities_def ex_unbridged_def merge_init_def merge_step_def
      ex_entity_defs key_def MergedEntity_init_def add_def register_eq_def Let_def str_def)

text \<open>
  Claim C7. In a dataset whose entity ids differ, every entity is in exactly one
  cluster of the canonicalized entities, and every cluster has the key, type,
  normalization kind and normalization value of its first member; \<^verbatim>\<open>add\<close> leaves them
  as they are.
\<close>

theorem every_entity_in_one_cluster:
  assumes "distinct (map id' (entities self))"
  shows "list_all (\<lambda>e. \<exists>!k. k < length (merge_ref_entities self)
                          \<and> id' e \<in> set (ids (merge_ref_entities self ! k))) (entities self)
     \<and> list_all (\<lambda>c. \<exists>e. first_member (entities self) c = Some e \<and> same_identity c e)
          (merge_ref_entities self)
     \<and> same_identity (add c later) first = same_identity c first"
proof -
  let ?cs = "merge_ref_entities self"
  have inv: "cluster_inv (entities self) ?cs"
    using cluster_inv_fold[OF assms] by (simp add: merge_ref_entities_def)
  have one: "\<exists>!k. k < length ?cs \<and> id' e \<in> set (ids (?cs ! k))" if mem: "e \<in> set (entities self)" for e
  proof -
    obtain k where k: "k < length ?cs" "id' e \<in> set (ids (?cs ! k))"
      using cluster_inv_cover[OF inv mem] by blast
    have "k' = k" if h: "k' < length ?cs \<and> id' e \<in> set (ids (?cs ! k'))" for k'
    proof (rule ccontr)
      assume "k' \<noteq> k"
      then have "set (ids (?cs ! k')) \<inter> set (ids (?cs ! k)) = {}"
        using cluster_inv_disjoint[OF inv _ k(1)] h by blast
      then show False using h k(2) by blast
    qed
    then show ?thesis using k by (intro ex1I[of _ k]) blast+
  qed
  have fm: "\<exists>e. first_member (entities self) c = Some e \<and> same_identity c e" if mem: "c \<in> set ?cs" for c
  proof -
    obtain k where "k < length ?cs" "c = ?cs ! k" using mem by (auto simp: in_set_conv_nth)
    then show ?thesis using cluster_inv_first[OF inv] by blast
  qed
  have a: "list_all (\<lambda>e. \<exists>!k. k < length ?cs \<and> id' e \<in> set (ids (?cs ! k))) (entities self)"
    unfolding list_all_iff using one by blast
  have b: "list_all (\<lambda>c. \<exists>e. first_member (entities self) c = Some e \<and> same_identity c e) ?cs"
    unfolding list_all_iff using fm by blast
  show ?thesis using a b same_identity_add by blast
qed

theorem every_entity_in_one_cluster_witness:
  "distinct (map id' (entities ex_bridged))
   \<and> map ids (merge_ref_entities ex_bridged)
       = [[Some (str ''e4''), Some (str ''e3''), Some (str ''e1'')], [Some (str ''e2'')]]
   \<and> list_all (\<lambda>e. \<exists>!k. k < length (merge_ref_entities ex_bridged)
                          \<and> id' e \<in> set (ids (merge_ref_entities ex_bridged ! k)))
        (entities ex_bridged)
   \<and> list_all (\<lambda>c. \<exists>e. first_member (entities ex_bridged) c = Some e \<and> same_identity c e)
        (merge_ref_entities ex_bridged)"
proof -
  have d: "distinct (map id' (entities ex_bridged))"
    by (simp add: ex_bridged_def ex_entity_defs str_def)
  from every_entity_in_one_cluster[OF d] d ex_bridged_ids show ?thesis by blast
qed

text \<open>
  Claim C6, as the code has it. Let \<open>e1\<close> come before \<open>e2\<close>, both in an equivalence set.
  If no entity before \<open>e1\<close> has its key or shares an equivalence set with it (so \<open>e1\<close>
  starts a cluster), no entity before \<open>e2\<close> has the key of \<open>e2\<close>, and no entity between
  the two shares an equivalence set with \<open>e2\<close>, then one cluster holds both ids; its
  key is the key of \<open>e1\<close>, which is not the key of \<open>e2\<close>.
\<close>

theorem equivalence_bridges_keys:
  assumes split: "entities self = pre @ e1 # mid @ e2 # post"
    and eq: "eq \<in> set (equivalences self)" "id' e1 \<in> set eq" "id' e2 \<in> set eq"
    and key1: "key e1 \<notin> key ` set pre"
    and free1: "\<forall>x \<in> set pre. \<forall>q \<in> set (equivalences self). id' x \<in> set q \<longrightarrow> id' e1 \<notin> set q"
    and key2: "key e2 \<notin> key ` set (pre @ e1 # mid)"
    and free2: "\<forall>x \<in> set mid. \<forall>q \<in> set (equivalences self). id' x \<in> set q \<longrightarrow> id' e2 \<notin> set q"
  shows "\<exists>c \<in> set (merge_ref_entities self).
           id' e1 \<in> set (ids c) \<and> id' e2 \<in> set (ids c) \<and> me_key c = key e1 \<and> key e2 \<noteq> key e1"
proof -
  let ?eqs = "equivalences self"
  let ?step = "merge_step ?eqs"
  define st1 where "st1 = fold ?step pre merge_init"
  define k where "k = length (clusters st1)"
  define st2 where "st2 = ?step e1 st1"
  define st3 where "st3 = fold ?step mid st2"
  define st4 where "st4 = ?step e2 st3"
  define st5 where "st5 = fold ?step post st4"
  have final: "merge_ref_entities self = clusters st5"
    by (simp add: merge_ref_entities_def split st1_def st2_def st3_def st4_def st5_def)
  have ne: "key e2 \<noteq> key e1" and key2pre: "key e2 \<notin> key ` set pre"
    and key2mid: "key e2 \<notin> key ` set mid"
    using key2 by auto
  have "ent_map st1 (key e1) = None"
    unfolding st1_def using ent_map_fold[OF key1] by (simp add: merge_init_def)
  moreover have "eqid_map st1 (id' e1) = None"
    unfolding st1_def using eqid_map_fold[OF free1] by (simp add: merge_init_def)
  ultimately have st2: "st2 =
         \<lparr> clusters = clusters st1 @ [MergedEntity_init e1],
           ent_map = (ent_map st1)(key e1 \<mapsto> k),
           eqid_map = register_eq ?eqs (id' e1) k (eqid_map st1) \<rparr>"
    unfolding st2_def k_def by (simp add: merge_step_def Let_def)
  have h2: "holds st2 k (id' e1) (key e1)"
    unfolding st2 by (simp add: holds_def k_def)
  have q2: "eqid_map st2 (id' e2) = Some k"
    unfolding st2 using eq by (auto simp: register_eq_lookup)
  have "ent_map st1 (key e2) = None"
    unfolding st1_def using ent_map_fold[OF key2pre] by (simp add: merge_init_def)
  then have m2: "ent_map st2 (key e2) = None"
    unfolding st2 using ne by simp
  have h3: "holds st3 k (id' e1) (key e1)"
    unfolding st3_def by (rule holds_fold[OF h2])
  have q3: "eqid_map st3 (id' e2) = Some k"
    unfolding st3_def using eqid_map_fold[OF free2] q2 by simp
  have m3: "ent_map st3 (key e2) = None"
    unfolding st3_def using ent_map_fold[OF key2mid] m2 by simp
  have st4: "st4 = st3\<lparr> clusters := (clusters st3)[k := add (clusters st3 ! k) e2] \<rparr>"
    unfolding st4_def using q3 m3 by (simp add: merge_step_def)
  have h4: "holds st4 k (id' e1) (key e1)" "holds st4 k (id' e2) (key e1)"
    using h3 unfolding st4 by (simp_all add: holds_def)
  have h5: "holds st5 k (id' e1) (key e1)" "holds st5 k (id' e2) (key e1)"
    unfolding st5_def using h4 by (auto intro: holds_fold)
  then have "clusters st5 ! k \<in> set (clusters st5)" by (simp add: holds_def)
  then show ?thesis using h5 ne unfolding final holds_def by blast
qed

theorem equivalence_bridges_keys_witness:
  "entities ex_bridged = [] @ ex_e1 # [ex_e3, ex_e2] @ ex_e4 # []
   \<and> [Some (str ''e1''), Some (str ''e4'')] \<in> set (equivalences ex_bridged)
   \<and> key ex_e4 \<notin> key ` set ([] @ ex_e1 # [ex_e3, ex_e2])
   \<and> (\<exists>c \<in> set (merge_ref_entities ex_bridged).
         id' ex_e1 \<in> set (ids c) \<and> id' ex_e4 \<in> set (ids c) \<and> me_key c = key ex_e1
         \<and> key ex_e4 \<noteq> key ex_e1)"
proof -
  have a: "entities ex_bridged = [] @ ex_e1 # [ex_e3, ex_e2] @ ex_e4 # []"
    by (simp add: ex_bridged_def)
  have b: "[Some (str ''e1''), Some (str ''e4'')] \<in> set (equivalences ex_bridged)"
    by (simp add: ex_bridged_def)
  have c: "id' ex_e1 \<in> set [Some (str ''e1''), Some (str ''e4'')]"
    "id' ex_e4 \<in> set [Some (str ''e1''), Some (str ''e4'')]"
    by (simp_all add: ex_entity_defs)
  have d: "key ex_e1 \<notin> key ` set []" by simp
  have e: "\<forall>x \<in> set []. \<forall>q \<in> set (equivalences ex_bridged). id' x \<in> set q \<longrightarrow> id' ex_e1 \<notin> set q"
    by simp
  have f: "key ex_e4 \<notin> key ` set ([] @ ex_e1 # [ex_e3, ex_e2])"
    by (simp add: key_def ex_entity_defs str_def)
  have g: "\<forall>x \<in> set [ex_e3, ex_e2]. \<forall>q \<in> set (equivalences ex_bridged).
      id' x \<in> set q \<longrightarrow> id' ex_e4 \<notin> set q"
    by (simp add: ex_bridged_def ex_entity_defs str_def)
  from equivalence_bridges_keys[OF a b c d e f g] a b f show ?thesis by blast
qed

lemma ex_entity_read:
  "Entity_init (ex_entity_json i n v) =
     Returns \<lparr> id' = Some (str i), type' = str ''Organism'', name = str n,
               normalization_type = str ''NCBI_Taxonomy'', normalization_value = str v \<rparr>"
  by (simp add: Entity_init_def ex_entity_json_def NORM_TYPES_def str_def)

lemma ex_unbridged_read: "Dataset_of ex_unbridged_json = Returns ex_unbridged"
proof -
  have eq: "equivalence_set (JArr [JStr (str ''e1''), JStr (str ''e6'')])
      = Returns [Some (str ''e1''), Some (str ''e6'')]"
    by (simp add: equivalence_set_def str_def)
  have sq: "squash_list ex_unbridged_json = Returns ex_unbridged_json"
    by (simp add: squash_list_def ex_unbridged_json_def)
  have ne: "str ''equivalences'' \<noteq> str ''entities''"
    "str ''relationships'' \<noteq> str ''entities''"
    "str ''relationships'' \<noteq> str ''equivalences''"
    by (simp_all add: str_def)
  show ?thesis
    unfolding Dataset_of_def sq
    by (simp add: ex_unbridged_json_def ne subscript_def ex_entity_read eq
        ex_unbridged_def ex_entity_defs)
qed

text \<open>
  Claim C6 as stated asks only that no other entity with either key comes before
  \<open>e1\<close>. Here \<open>e5\<close>, with the key of \<open>e6\<close> (both \<^verbatim>\<open>NCBI_Taxonomy\<close> 83333), comes between
  \<open>e1\<close> and \<open>e6\<close>, which are declared equivalent: the key is looked up before the
  equivalence, \<open>e6\<close> joins the cluster of \<open>e5\<close>, and no cluster holds both \<open>e1\<close> and \<open>e6\<close>.
  The dataset is the one read from the document \<open>ex_unbridged_json\<close>.
\<close>

theorem later_key_blocks_bridge:
  "Dataset_of ex_unbridged_json = Returns ex_unbridged
   \<and> entities ex_unbridged = [ex_e1, ex_e5, ex_e6]
   \<and> [id' ex_e1, id' ex_e6] \<in> set (equivalences ex_unbridged)
   \<and> key ex_e1 \<noteq> key ex_e6
   \<and> \<not> list_ex (\<lambda>c. id' ex_e1 \<in> set c \<and> id' ex_e6 \<in> set c)
         (map ids (merge_ref_entities ex_unbridged))"
  unfolding ex_unbridged_ids
  by (simp add: ex_unbridged_read) (simp add: ex_unbridged_def ex_entity_defs key_def str_def)


section \<open>Optimal pairing\<close>

lemma weights_row_total:
  assumes "list_all (\<lambda>p. \<not> isl (f p)) ps"
  shows "\<exists>xs. weights_row f ps = Inr xs \<and> length xs = length ps
     \<and> (\<forall>j < length ps. f (ps ! j) = Inr (xs ! j))"
  using assms
proof (induction ps)
  case Nil
  then show ?case by simp
next
  case (Cons p ps)
  then obtain x where x: "f p = Inr x" by (cases "f p") auto
  obtain xs where xs: "weights_row f ps = Inr xs" "length xs = length ps"
    "\<forall>j < length ps. f (ps ! j) = Inr (xs ! j)"
    using Cons by auto
  show ?case using x xs by (intro exI[of _ "x # xs"]) (auto simp: nth_Cons split: nat.splits)
qed

lemma weights_total:
  assumes "list_all (\<lambda>r. list_all (\<lambda>p. \<not> isl (sim r p)) pred) ref"
  shows "\<exists>w. weights sim ref pred = Inr w \<and> length w = length ref
     \<and> (\<forall>i < length ref. \<forall>j < length pred. sim (ref ! i) (pred ! j) = Inr (w ! i ! j))"
  using assms
proof (induction ref)
  case Nil
  then show ?case by simp
next
  case (Cons r ref)
  obtain row where row: "weights_row (sim r) pred = Inr row"
    "\<forall>j < length pred. sim r (pred ! j) = Inr (row ! j)"
    using weights_row_total[of "sim r" pred] Cons.prems by auto
  obtain w where w: "weights sim ref pred = Inr w" "length w = length ref"
    "\<forall>i < length ref. \<forall>j < length pred. sim (ref ! i) (pred ! j) = Inr (w ! i ! j)"
    using Cons by auto
  show ?case using row w
    by (intro exI[of _ "row # w"]) (auto simp: nth_Cons split: nat.splits)
qed

lemma assignments_sound:
  assumes "distinct is" "a \<in> set (assignments is js)"
  shows "distinct (map fst a) \<and> distinct (map snd a)
     \<and> set (map fst a) \<subseteq> set is \<and> set (map snd a) \<subseteq> set js"
  using assms
proof (induction "is" arbitrary: js a)
  case Nil
  then show ?case by simp
next
  case (Cons i "is")
  from Cons.prems(2) consider (skip) "a \<in> set (assignments is js)"
    | (take) j a' where "j \<in> set js" "a' \<in> set (assignments is (removeAll j js))" "a = (i, j) # a'"
    by auto
  then show ?case
  proof cases
    case skip
    then show ?thesis using Cons.IH[of a js] Cons.prems(1) by auto
  next
    case take
    have ih: "distinct (map fst a') \<and> distinct (map snd a')
        \<and> set (map fst a') \<subseteq> set is \<and> set (map snd a') \<subseteq> set (removeAll j js)"
      using Cons.IH[of a' "removeAll j js"] Cons.prems(1) take(2) by auto
    then show ?thesis using take(1,3) Cons.prems(1) by auto
  qed
qed

lemma assignments_complete:
  assumes "distinct is" "distinct (map fst m)" "distinct (map snd m)"
    "set (map fst m) \<subseteq> set is" "set (map snd m) \<subseteq> set js"
  shows "\<exists>a \<in> set (assignments is js). set a = set m"
  using assms
proof (induction "is" arbitrary: js m)
  case Nil
  then show ?case by simp
next
  case (Cons i "is")
  show ?case
  proof (cases "i \<in> set (map fst m)")
    case False
    then have "set (map fst m) \<subseteq> set is" using Cons.prems(4) by auto
    then obtain a where "a \<in> set (assignments is js)" "set a = set m"
      using Cons.IH[of m js] Cons.prems by auto
    then show ?thesis by auto
  next
    case True
    then obtain j where ij: "(i, j) \<in> set m" by auto
    let ?m' = "filter (\<lambda>p. fst p \<noteq> i) m"
    have inj1: "inj_on fst (set m)" and inj2: "inj_on snd (set m)"
      using Cons.prems(2,3) by (simp_all add: distinct_map)
    have only: "p = (i, j)" if "p \<in> set m" "fst p = i" for p
      using inj_onD[OF inj1, of p "(i, j)"] that ij by simp
    have onlyj: "p = (i, j)" if "p \<in> set m" "snd p = j" for p
      using inj_onD[OF inj2, of p "(i, j)"] that ij by simp
    have set': "set ?m' = set m - {(i, j)}"
    proof (rule set_eqI)
      fix p
      show "p \<in> set ?m' \<longleftrightarrow> p \<in> set m - {(i, j)}"
      proof
        assume "p \<in> set ?m'"
        then have "p \<in> set m" "fst p \<noteq> i" by simp_all
        then show "p \<in> set m - {(i, j)}" by auto
      next
        assume a: "p \<in> set m - {(i, j)}"
        then have "fst p \<noteq> i" using only[of p] by blast
        then show "p \<in> set ?m'" using a by simp
      qed
    qed
    have d1: "distinct (map fst ?m')" using Cons.prems(2) by (rule distinct_map_filter)
    have d2: "distinct (map snd ?m')" using Cons.prems(3) by (rule distinct_map_filter)
    have f1: "set (map fst ?m') \<subseteq> set is"
    proof
      fix x assume "x \<in> set (map fst ?m')"
      then obtain p where p: "p \<in> set m" "fst p \<noteq> i" "x = fst p" by auto
      then have "x \<in> set (i # is)" using Cons.prems(4) by auto
      then show "x \<in> set is" using p by simp
    qed
    have f2: "set (map snd ?m') \<subseteq> set (removeAll j js)"
    proof
      fix x assume "x \<in> set (map snd ?m')"
      then obtain p where p: "p \<in> set m" "fst p \<noteq> i" "x = snd p" by auto
      then have "x \<in> set js" using Cons.prems(5) by auto
      moreover have "x \<noteq> j"
      proof
        assume "x = j"
        then have "p = (i, j)" using onlyj[of p] p by simp
        then have "fst p = i" by simp
        then show False using p(2) by simp
      qed
      ultimately show "x \<in> set (removeAll j js)" by simp
    qed
    have di: "distinct is" using Cons.prems(1) by simp
    obtain a' where a': "a' \<in> set (assignments is (removeAll j js))" "set a' = set ?m'"
      using Cons.IH[OF di d1 d2 f1 f2] by blast
    have j: "j \<in> set js" using ij Cons.prems(5) by force
    have "(i, j) # a' \<in> set (assignments (i # is) js)" using a'(1) j by auto
    moreover have "set ((i, j) # a') = set m" using a'(2) set' ij by auto
    ultimately show ?thesis by blast
  qed
qed

lemma best_of_max:
  "best_of f b xs \<in> insert b (set xs) \<and> (\<forall>x \<in> insert b (set xs). f x \<le> f (best_of f b xs))"
  unfolding best_of_def
proof (induction xs arbitrary: b)
  case Nil
  then show ?case by simp
next
  case (Cons x xs)
  let ?b = "if f b < f x then x else b"
  have ih: "fold (\<lambda>x b. if f b < f x then x else b) xs ?b \<in> insert ?b (set xs)
      \<and> (\<forall>y \<in> insert ?b (set xs). f y \<le> f (fold (\<lambda>x b. if f b < f x then x else b) xs ?b))"
    by (rule Cons.IH)
  then have "f ?b \<le> f (fold (\<lambda>x b. if f b < f x then x else b) xs ?b)" by blast
  then have "f b \<le> f (fold (\<lambda>x b. if f b < f x then x else b) xs ?b)"
    "f x \<le> f (fold (\<lambda>x b. if f b < f x then x else b) xs ?b)"
    by (auto split: if_splits)
  then show ?case using ih by (auto split: if_splits)
qed

lemma total_set:
  assumes "distinct a" "distinct m" "set a = set m"
  shows "total w a = total w m"
  unfolding total_def using assms by (simp add: sum_list_distinct_conv_sum_set)

lemma matching_sets:
  "matching R P m \<longleftrightarrow>
     distinct (map fst m) \<and> distinct (map snd m)
     \<and> set (map fst m) \<subseteq> set [0..<R] \<and> set (map snd m) \<subseteq> set [0..<P]"
  by (auto simp: matching_def list_all_iff)

lemma best_assignment:
  defines "best w R P \<equiv> best_of (total w) [] (assignments [0..<R] [0..<P])"
  shows "matching R P (best w R P) \<and> (\<forall>m. matching R P m \<longrightarrow> total w m \<le> total w (best w R P))"
proof
  have mem: "best w R P \<in> insert [] (set (assignments [0..<R] [0..<P]))"
    and mx: "\<And>a. a \<in> insert [] (set (assignments [0..<R] [0..<P])) \<Longrightarrow> total w a \<le> total w (best w R P)"
    using best_of_max[of "total w" "[]" "assignments [0..<R] [0..<P]"] unfolding best_def by blast+
  show "matching R P (best w R P)"
  proof (cases "best w R P = []")
    case True
    then show ?thesis by (simp add: matching_def)
  next
    case False
    then have "best w R P \<in> set (assignments [0..<R] [0..<P])" using mem by auto
    then show ?thesis
      using assignments_sound[of "[0..<R]" "best w R P" "[0..<P]"] by (simp add: matching_sets)
  qed
  show "\<forall>m. matching R P m \<longrightarrow> total w m \<le> total w (best w R P)"
  proof (intro allI impI)
    fix m assume m: "matching R P m"
    then obtain a where a: "a \<in> set (assignments [0..<R] [0..<P])" "set a = set m"
      using assignments_complete[of "[0..<R]" m "[0..<P]"] by (auto simp: matching_sets)
    have da: "distinct a" using assignments_sound[OF _ a(1)] by (auto simp: distinct_map)
    have dm: "distinct m" using m by (auto simp: matching_def distinct_map)
    have "total w m = total w a" using total_set[OF da dm a(2)] by simp
    then show "total w m \<le> total w (best w R P)" using mx[of a] a(1) by simp
  qed
qed

lemma matched_both:
  "concat (map matched_of (map (\<lambda>(i, j). Pair (Some i) (Some j) (f i j)) m)) = m"
  by (induction m) auto

lemma matched_ref_only: "concat (map matched_of (map (\<lambda>i. Pair (Some i) None 0) xs)) = []"
  by (induction xs) auto

lemma matched_pred_only: "concat (map matched_of (map (\<lambda>j. Pair None (Some j) 0) xs)) = []"
  by (induction xs) auto

lemma matched_pairs_of: "matched (pairs_of w R P m) = m"
proof -
  have "matched (pairs_of w R P m)
      = concat (map matched_of (map (\<lambda>(i, j). Pair (Some i) (Some j) (w ! i ! j)) m))
        @ concat (map matched_of (map (\<lambda>i. Pair (Some i) None 0)
            (filter (\<lambda>i. i \<notin> fst ` set m) [0..<R])))
        @ concat (map matched_of (map (\<lambda>j. Pair None (Some j) 0)
            (filter (\<lambda>j. j \<notin> snd ` set m) [0..<P])))"
    by (simp only: matched_def pairs_of_def map_append concat_append)
  also have "\<dots> = m"
    by (simp only: matched_both matched_ref_only matched_pred_only append_Nil2)
  finally show ?thesis .
qed

lemma count_distinct:
  "distinct xs \<Longrightarrow> length (filter (\<lambda>x. x = i) xs) = (if i \<in> set xs then 1 else 0)"
  by (induction xs) auto

lemma count_ref_both:
  "length (filter (\<lambda>p. pair_ref p = Some i) (map (\<lambda>(i, j). Pair (Some i) (Some j) (f i j)) m))
     = length (filter (\<lambda>x. x = i) (map fst m))"
  by (induction m) auto

lemma count_pred_both:
  "length (filter (\<lambda>p. pair_pred p = Some j) (map (\<lambda>(i, j). Pair (Some i) (Some j) (f i j)) m))
     = length (filter (\<lambda>x. x = j) (map snd m))"
  by (induction m) auto

lemma count_ref_ref:
  "length (filter (\<lambda>p. pair_ref p = Some i) (map (\<lambda>i. Pair (Some i) None 0) xs))
     = length (filter (\<lambda>x. x = i) xs)"
  by (induction xs) auto

lemma count_pred_pred:
  "length (filter (\<lambda>p. pair_pred p = Some j) (map (\<lambda>j. Pair None (Some j) 0) xs))
     = length (filter (\<lambda>x. x = j) xs)"
  by (induction xs) auto

lemma count_ref_pred:
  "filter (\<lambda>p. pair_ref p = Some i) (map (\<lambda>j. Pair None (Some j) 0) xs) = []"
  by (induction xs) auto

lemma count_pred_ref:
  "filter (\<lambda>p. pair_pred p = Some j) (map (\<lambda>i. Pair (Some i) None 0) xs) = []"
  by (induction xs) auto

lemma once_ref:
  assumes "distinct (map fst m)" "i < R"
  shows "length (filter (\<lambda>p. pair_ref p = Some i) (pairs_of w R P m)) = 1"
proof -
  let ?U = "filter (\<lambda>i. i \<notin> fst ` set m) [0..<R]"
  have d: "distinct ?U" by simp
  have "length (filter (\<lambda>p. pair_ref p = Some i) (pairs_of w R P m))
      = length (filter (\<lambda>x. x = i) (map fst m)) + (length (filter (\<lambda>x. x = i) ?U) + 0)"
    by (simp only: pairs_of_def filter_append length_append count_ref_both count_ref_ref
        count_ref_pred list.size)
  also have "\<dots> = (if i \<in> set (map fst m) then 1 else 0) + (if i \<in> set ?U then 1 else 0)"
    by (simp only: count_distinct[OF assms(1)] count_distinct[OF d] add_0_right)
  also have "\<dots> = 1" using assms(2) by simp
  finally show ?thesis .
qed

lemma once_pred:
  assumes "distinct (map snd m)" "j < P"
  shows "length (filter (\<lambda>p. pair_pred p = Some j) (pairs_of w R P m)) = 1"
proof -
  let ?U = "filter (\<lambda>j. j \<notin> snd ` set m) [0..<P]"
  have d: "distinct ?U" by simp
  have "length (filter (\<lambda>p. pair_pred p = Some j) (pairs_of w R P m))
      = length (filter (\<lambda>x. x = j) (map snd m)) + (0 + length (filter (\<lambda>x. x = j) ?U))"
    by (simp only: pairs_of_def filter_append length_append count_pred_both count_pred_pred
        count_pred_ref list.size)
  also have "\<dots> = (if j \<in> set (map snd m) then 1 else 0) + (if j \<in> set ?U then 1 else 0)"
    by (simp only: count_distinct[OF assms(1)] count_distinct[OF d] add_0_left)
  also have "\<dots> = 1" using assms(2) by simp
  finally show ?thesis .
qed

lemma scores_pairs_of:
  "list_all (\<lambda>p. pair_score p =
       (case (pair_ref p, pair_pred p) of (Some i, Some j) \<Rightarrow> w ! i ! j | _ \<Rightarrow> 0))
     (pairs_of w R P m)"
  by (auto simp: pairs_of_def list_all_iff)

lemma matching_length:
  assumes "matching R P m"
  shows "length m \<le> min R P"
proof -
  have "length m = card (set (map fst m))"
    using assms by (metis matching_def distinct_card length_map)
  also have "\<dots> \<le> card {0..<R}"
    using assms by (intro card_mono) (auto simp: matching_sets)
  finally have a: "length m \<le> R" by simp
  have "length m = card (set (map snd m))"
    using assms by (metis matching_def distinct_card length_map)
  also have "\<dots> \<le> card {0..<P}"
    using assms by (intro card_mono) (auto simp: matching_sets)
  finally have b: "length m \<le> P" by simp
  show ?thesis using a b by simp
qed

lemma ex_sim_pairs: "get_pairs ex_sim [0, 1] [0, 1] = Inr [Pair (Some 0) (Some 1) 1, Pair (Some 1) (Some 0) 1]"
  by (simp add: get_pairs_def ex_sim_def best_of_def total_def pairs_of_def upt_rec[of 0]
      upt_rec[of 1] upt_rec[of 2])

text \<open>
  Claim C9, for the pairing modelled from the specification. When the similarity
  returns on every reference relation and prediction, \<open>get_pairs\<close> returns pairs whose
  matched part is a matching of at most \<open>min R P\<close> pairs, of a total weight that no
  matching of the same relations exceeds; every reference relation and every
  prediction is in exactly one pair; a matched pair carries the similarity of its two
  sides and a pair with one side absent the score 0. Weights and totals are exact
  rationals; under the strict similarities, which \<^verbatim>\<open>main\<close> uses, every weight is 0 or 1.
\<close>

theorem get_pairs_optimal_assignment:
  assumes "list_all (\<lambda>r. list_all (\<lambda>p. \<not> isl (sim r p)) pred) ref"
  shows "\<exists>w pairs.
       weights sim ref pred = Inr w
     \<and> (\<forall>i < length ref. \<forall>j < length pred. sim (ref ! i) (pred ! j) = Inr (w ! i ! j))
     \<and> get_pairs sim ref pred = Inr pairs
     \<and> matching (length ref) (length pred) (matched pairs)
     \<and> length (matched pairs) \<le> min (length ref) (length pred)
     \<and> (\<forall>m. matching (length ref) (length pred) m \<longrightarrow> total w m \<le> total w (matched pairs))
     \<and> list_all (\<lambda>i. length (filter (\<lambda>p. pair_ref p = Some i) pairs) = 1) [0..<length ref]
     \<and> list_all (\<lambda>j. length (filter (\<lambda>p. pair_pred p = Some j) pairs) = 1) [0..<length pred]
     \<and> list_all (\<lambda>p. pair_score p =
            (case (pair_ref p, pair_pred p) of (Some i, Some j) \<Rightarrow> w ! i ! j | _ \<Rightarrow> 0)) pairs"
proof -
  let ?R = "length ref" and ?P = "length pred"
  obtain w where w: "weights sim ref pred = Inr w"
    "\<forall>i < ?R. \<forall>j < ?P. sim (ref ! i) (pred ! j) = Inr (w ! i ! j)"
    using weights_total[OF assms] by blast
  let ?m = "best_of (total w) [] (assignments [0..<?R] [0..<?P])"
  let ?pairs = "pairs_of w ?R ?P ?m"
  have g: "get_pairs sim ref pred = Inr ?pairs" by (simp add: get_pairs_def w(1))
  have b: "matching ?R ?P ?m" "\<forall>m. matching ?R ?P m \<longrightarrow> total w m \<le> total w ?m"
    using best_assignment[of ?R ?P w] by blast+
  have mm: "matched ?pairs = ?m" by (rule matched_pairs_of)
  have d: "distinct (map fst ?m)" "distinct (map snd ?m)" using b(1) by (simp_all add: matching_def)
  have r1: "list_all (\<lambda>i. length (filter (\<lambda>p. pair_ref p = Some i) ?pairs) = 1) [0..<?R]"
    unfolding list_all_iff using once_ref[OF d(1)] by simp
  have p1: "list_all (\<lambda>j. length (filter (\<lambda>p. pair_pred p = Some j) ?pairs) = 1) [0..<?P]"
    unfolding list_all_iff using once_pred[OF d(2)] by simp
  have len: "length (matched ?pairs) \<le> min ?R ?P"
    unfolding mm by (rule matching_length[OF b(1)])
  show ?thesis
    apply (intro exI[of _ w] exI[of _ ?pairs] conjI)
    using w g b r1 p1 len scores_pairs_of[of w ?R ?P ?m] unfolding mm by blast+
qed

theorem get_pairs_optimal_assignment_witness:
  "list_all (\<lambda>r. list_all (\<lambda>p. \<not> isl (ex_sim r p)) [0, 1]) [0, 1]
   \<and> get_pairs ex_sim [0, 1] [0, 1] = Inr [Pair (Some 0) (Some 1) 1, Pair (Some 1) (Some 0) 1]
   \<and> matching 2 2 (matched [Pair (Some 0) (Some 1) 1, Pair (Some 1) (Some 0) 1])
   \<and> list_all (\<lambda>i. length (filter (\<lambda>p. pair_ref p = Some i)
                        [Pair (Some 0) (Some 1) 1, Pair (Some 1) (Some 0) 1]) = 1) [0..<2]"
proof -
  have t: "list_all (\<lambda>r. list_all (\<lambda>p. \<not> isl (ex_sim r p)) [0, 1]) [0, 1]"
    by (simp add: ex_sim_def)
  from get_pairs_optimal_assignment[OF t] obtain w pairs where
    p: "get_pairs ex_sim [0, 1] [0, 1] = Inr pairs"
      "matching (length [0::nat, 1]) (length [0::nat, 1]) (matched pairs)"
      "list_all (\<lambda>i. length (filter (\<lambda>p. pair_ref p = Some i) pairs) = 1) [0..<length [0::nat, 1]]"
    by blast
  have eq: "pairs = [Pair (Some 0) (Some 1) 1, Pair (Some 1) (Some 0) 1]"
    using p(1) unfolding ex_sim_pairs by simp
  have l: "length [0::nat, 1] = 2" by simp
  note q = p(2,3)[unfolded l eq]
  show ?thesis using t ex_sim_pairs q by blast
qed

end
